theory Spec2Isabelle
  imports Main
begin

section \<open>JavaScript values\<close>

text \<open>
  The agent loop of \<^verbatim>\<open>ComputerUseSettings.tsx\<close> (second document of the file,
  lines 231--587) works on values typed \<^verbatim>\<open>any\<close>: the parsed body of the endpoint's
  response and the \<^verbatim>\<open>input\<close> object of a tool-use block. They are modelled as JSON
  data plus \<^verbatim>\<open>undefined\<close> and \<^verbatim>\<open>NaN\<close>, which property reads and unary minus
  produce. Numbers are integers: fractions, infinities and the rounding of doubles are
  outside the model, and so is the exponent form in which JavaScript prints an integer of
  21 digits or more.
\<close>

datatype js =
    Undefined
  | Null
  | Bool bool
  | Num int
  | NaN
  | Str string
  | Arr "js list"
  | Obj "(string \<times> js) list"

type_synonym props = "(string \<times> js) list"

text \<open>
  A value that was thrown: an instance of \<^verbatim>\<open>Error\<close> with its message, or any other
  value (a rejected Tauri command carries the string of the Rust side).
\<close>

datatype thrown = ErrorObject string | Rejected js

text \<open>
  The engine's own \<^verbatim>\<open>TypeError\<close> is an \<^verbatim>\<open>Error\<close>; the wording of its message is the
  engine's and differs between web views, so the model keeps a description of the failed
  operation there.
\<close>

definition TypeError :: "string \<Rightarrow> thrown" where
  "TypeError what = ErrorObject what"

subsection \<open>Numbers as text\<close>

fun show_nat :: "nat \<Rightarrow> string" where
  "show_nat n =
     (if n < 10 then [''0123456789'' ! n]
      else show_nat (n div 10) @ [''0123456789'' ! (n mod 10)])"

declare show_nat.simps [simp del]

definition show_int :: "int \<Rightarrow> string" where
  "show_int i = (if i < 0 then CHR ''-'' # show_nat (nat (- i)) else show_nat (nat i))"

fun join_comma :: "string list \<Rightarrow> string" where
  "join_comma [] = []"
| "join_comma [s] = s"
| "join_comma (s # t # ss) = s @ '','' @ join_comma (t # ss)"

text \<open>The results of a list of steps done in order; the first exception ends them.\<close>

fun in_order :: "(thrown + 'a) list \<Rightarrow> thrown + 'a list" where
  "in_order [] = Inr []"
| "in_order (r # rs) =
     (case r of
        Inl t \<Rightarrow> Inl t
      | Inr x \<Rightarrow> (case in_order rs of Inl t \<Rightarrow> Inl t | Inr xs \<Rightarrow> Inr (x # xs)))"

text \<open>Whether an object has an own property of this name.\<close>

definition has_own :: "props \<Rightarrow> string \<Rightarrow> bool" where
  "has_own ps k = (map_of ps k \<noteq> None)"

text \<open>
  \<^verbatim>\<open>String(v)\<close> and the conversion a template literal applies to \<^verbatim>\<open>${v}\<close>. An array
  joins its elements with commas, \<^verbatim>\<open>null\<close> and \<^verbatim>\<open>undefined\<close> elements as empty text. An
  object is converted by its \<^verbatim>\<open>toString\<close>: the inherited one gives \<^verbatim>\<open>[object Object]\<close>;
  an own property of that name hides it, and as no value of these is a function the
  conversion then throws a \<^verbatim>\<open>TypeError\<close>.
\<close>

fun js_to_string :: "js \<Rightarrow> thrown + string" where
  "js_to_string Undefined = Inr ''undefined''"
| "js_to_string Null = Inr ''null''"
| "js_to_string (Bool b) = Inr (if b then ''true'' else ''false'')"
| "js_to_string (Num n) = Inr (show_int n)"
| "js_to_string NaN = Inr ''NaN''"
| "js_to_string (Str s) = Inr s"
| "js_to_string (Arr xs) =
     (case in_order (map (\<lambda>x. if x = Undefined \<or> x = Null then Inr [] else js_to_string x) xs) of
        Inl t \<Rightarrow> Inl t
      | Inr ss \<Rightarrow> Inr (join_comma ss))"
| "js_to_string (Obj ps) =
     (if has_own ps ''toString''
      then Inl (TypeError ''cannot convert object to primitive value'')
      else Inr ''[object Object]'')"

text \<open>
  \<^verbatim>\<open>error instanceof Error ? error.message : String(error)\<close>, as both catch clauses
  compute it; \<^verbatim>\<open>String\<close> may throw in its turn.
\<close>

fun error_message :: "thrown \<Rightarrow> thrown + string" where
  "error_message (ErrorObject m) = Inr m"
| "error_message (Rejected v) = js_to_string v"

subsection \<open>Text as numbers\<close>

text \<open>
  Unary minus converts its operand to a number first. A string converts through its
  trimmed text: empty text is 0, a signed run of decimal digits is that integer, and any
  other text is \<^verbatim>\<open>NaN\<close> here. That is what JavaScript gives for text that is no numeric
  literal; its other literals (a fraction, an exponent, a hexadecimal, octal or binary
  integer, \<^verbatim>\<open>Infinity\<close>) are outside the model, and no property below rests on the number
  read from a string. ASCII white space is trimmed. An array converts through its text, an
  object through \<^verbatim>\<open>valueOf\<close> (which gives the object back) and then \<^verbatim>\<open>toString\<close>, so it is
  \<^verbatim>\<open>NaN\<close> unless an own \<^verbatim>\<open>toString\<close> makes the conversion throw.
\<close>

definition is_space :: "char \<Rightarrow> bool" where
  "is_space c = (c \<in> set [CHR '' '', CHR 0x09, CHR 0x0A, CHR 0x0B, CHR 0x0C, CHR 0x0D])"

definition trim :: "string \<Rightarrow> string" where
  "trim s = rev (dropWhile is_space (rev (dropWhile is_space s)))"

definition is_digit :: "char \<Rightarrow> bool" where
  "is_digit c = (c \<in> set ''0123456789'')"

definition digits_value :: "string \<Rightarrow> int" where
  "digits_value ds = foldl (\<lambda>acc c. 10 * acc + (of_char c - 48)) 0 ds"

definition digits_to_number :: "string \<Rightarrow> js" where
  "digits_to_number ds =
     (if ds \<noteq> [] \<and> list_all is_digit ds then Num (digits_value ds) else NaN)"

definition string_to_number :: "string \<Rightarrow> js" where
  "string_to_number s =
     (case trim s of
        [] \<Rightarrow> Num 0
      | c # r \<Rightarrow>
          if c = CHR ''-'' then
            (case digits_to_number r of Num n \<Rightarrow> Num (- n) | _ \<Rightarrow> NaN)
          else if c = CHR ''+'' then digits_to_number r
          else digits_to_number (c # r))"

fun to_number :: "js \<Rightarrow> thrown + js" where
  "to_number Undefined = Inr NaN"
| "to_number Null = Inr (Num 0)"
| "to_number (Bool b) = Inr (Num (if b then 1 else 0))"
| "to_number (Num n) = Inr (Num n)"
| "to_number NaN = Inr NaN"
| "to_number (Str s) = Inr (string_to_number s)"
| "to_number (Arr xs) =
     (case js_to_string (Arr xs) of Inl t \<Rightarrow> Inl t | Inr s \<Rightarrow> Inr (string_to_number s))"
| "to_number (Obj ps) =
     (if has_own ps ''toString''
      then Inl (TypeError ''cannot convert object to primitive value'')
      else Inr NaN)"

text \<open>The unary minus of \<^verbatim>\<open>-params.scroll_amount\<close>.\<close>

definition js_neg :: "js \<Rightarrow> thrown + js" where
  "js_neg v =
     (case to_number v of
        Inl t \<Rightarrow> Inl t
      | Inr (Num n) \<Rightarrow> Inr (Num (- n))
      | Inr _ \<Rightarrow> Inr NaN)"

subsection \<open>Truthiness, property reads, spread\<close>

fun truthy :: "js \<Rightarrow> bool" where
  "truthy Undefined = False"
| "truthy Null = False"
| "truthy (Bool b) = b"
| "truthy (Num n) = (n \<noteq> 0)"
| "truthy NaN = False"
| "truthy (Str s) = (s \<noteq> [])"
| "truthy (Arr xs) = True"
| "truthy (Obj ps) = True"

text \<open>\<^verbatim>\<open>a || b\<close>.\<close>

definition js_or :: "js \<Rightarrow> js \<Rightarrow> js" where
  "js_or a b = (if truthy a then a else b)"

text \<open>
  An own property of an object, the object being the list of its properties (a name is
  read at its first entry); a missing one reads as \<^verbatim>\<open>undefined\<close>.
\<close>

definition own_prop :: "props \<Rightarrow> string \<Rightarrow> js" where
  "own_prop ps k = (case map_of ps k of None \<Rightarrow> Undefined | Some v \<Rightarrow> v)"

text \<open>
  \<^verbatim>\<open>v.k\<close> for the names this program reads (\<^verbatim>\<open>content\<close>, \<^verbatim>\<open>stop_reason\<close>,
  \<^verbatim>\<open>type\<close>, \<^verbatim>\<open>text\<close>, \<^verbatim>\<open>thinking\<close>, \<^verbatim>\<open>input\<close>, \<^verbatim>\<open>id\<close>, \<^verbatim>\<open>action\<close>): none of them is
  defined on a built-in prototype, so only an object can hold one. Reading a property of
  \<^verbatim>\<open>undefined\<close> or \<^verbatim>\<open>null\<close> throws.
\<close>

fun js_get :: "js \<Rightarrow> string \<Rightarrow> thrown + js" where
  "js_get Undefined k = Inl (TypeError (''cannot read property '' @ k @ '' of undefined''))"
| "js_get Null k = Inl (TypeError (''cannot read property '' @ k @ '' of null''))"
| "js_get (Obj ps) k = Inr (own_prop ps k)"
| "js_get v k = Inr Undefined"

text \<open>\<^verbatim>\<open>v[i]\<close> for a literal index \<^verbatim>\<open>i\<close>.\<close>

fun js_index :: "js \<Rightarrow> nat \<Rightarrow> thrown + js" where
  "js_index Undefined i = Inl (TypeError (''cannot read property '' @ show_nat i @ '' of undefined''))"
| "js_index Null i = Inl (TypeError (''cannot read property '' @ show_nat i @ '' of null''))"
| "js_index (Arr xs) i = Inr (if i < length xs then xs ! i else Undefined)"
| "js_index (Str s) i = Inr (if i < length s then Str [s ! i] else Undefined)"
| "js_index (Obj ps) i = Inr (own_prop ps (show_nat i))"
| "js_index v i = Inr Undefined"

text \<open>\<^verbatim>\<open>v?.[i]\<close>: \<^verbatim>\<open>undefined\<close> where \<^verbatim>\<open>v\<close> is \<^verbatim>\<open>undefined\<close> or \<^verbatim>\<open>null\<close>.\<close>

definition js_opt_index :: "js \<Rightarrow> nat \<Rightarrow> js" where
  "js_opt_index v i = (case js_index v i of Inl e \<Rightarrow> Undefined | Inr x \<Rightarrow> x)"

text \<open>The own enumerable properties that \<^verbatim>\<open>{...v}\<close> copies.\<close>

fun js_spread :: "js \<Rightarrow> props" where
  "js_spread (Obj ps) = ps"
| "js_spread (Arr xs) = zip (map show_nat [0..<length xs]) xs"
| "js_spread (Str s) = zip (map show_nat [0..<length s]) (map (\<lambda>c. Str [c]) s)"
| "js_spread v = []"

text \<open>A later key of an object literal replaces an earlier one of the same name.\<close>

fun set_prop :: "props \<Rightarrow> string \<Rightarrow> js \<Rightarrow> props" where
  "set_prop [] k v = [(k, v)]"
| "set_prop (p # ps) k v = (if fst p = k then (k, v) # ps else p # set_prop ps k v)"

section \<open>The host: Action Executor, Model Endpoint, observer\<close>

text \<open>The \<^verbatim>\<open>ToolResult\<close> interface. \<^verbatim>\<open>is_error\<close> is optional there; absent reads as false.\<close>

datatype tool_content = TextContent string | ImageContent string

record tool_result =
  tool_use_id :: js
  content :: tool_content
  is_error :: bool

text \<open>
  The \<^verbatim>\<open>Message\<close> interface: the seed message holds text, an assistant turn holds
  \<^verbatim>\<open>data.content\<close> as received, a tool-result turn holds the results.
\<close>

datatype role = User | Assistant

datatype message_content = Plain string | Reply js | Results "tool_result list"

record message =
  role :: role
  body :: message_content

record ComputerUseTool =
  tool_type :: string
  tool_name :: string
  display_width_px :: int
  display_height_px :: int
  display_number :: int

text \<open>The request of \<^verbatim>\<open>tauriFetch\<close>: the key of the headers and the fields of the body.\<close>

record request =
  x_api_key :: string
  req_model :: string
  max_tokens :: int
  req_messages :: "message list"
  req_tools :: "ComputerUseTool list"
  req_system :: "string option"

text \<open>
  A response whose body has arrived: \<^verbatim>\<open>text()\<close> gives the body, \<^verbatim>\<open>json()\<close> its parse.
  Where the body is not JSON, \<^verbatim>\<open>json()\<close> throws a \<^verbatim>\<open>SyntaxError\<close>, an \<^verbatim>\<open>Error\<close> whose
  message is kept here.
\<close>

record response =
  ok :: bool
  status :: int
  text_body :: string
  json_body :: "string + js"

text \<open>
  What the program does to the outside, in order: a call of the endpoint, a call of the
  observer, a command sent to the Action Executor with its arguments.
\<close>

datatype effect = Fetch request | Notify js props | Invoke string props

text \<open>
  The outside is a state \<open>'w\<close> that the endpoint and the Action Executor read and change;
  the trace records the calls made. A call either throws (a rejected promise) or returns.
\<close>

record 'w host =
  world :: 'w
  trace :: "effect list"

record 'w env =
  tauriFetch :: "'w \<Rightarrow> request \<Rightarrow> (thrown + response) \<times> 'w"
  invoke :: "'w \<Rightarrow> string \<Rightarrow> props \<Rightarrow> (thrown + string) \<times> 'w"

text \<open>
  The optional callback \<^verbatim>\<open>onActionExecuted\<close>, declared to return nothing. It is handed
  the \<^verbatim>\<open>params\<close> object itself, which the dispatcher reads after the call, so a call is
  modelled by how it ends (it returns, \<open>None\<close>, or throws) together with the properties it
  leaves \<^verbatim>\<open>params\<close> with. The call is recorded in the trace. \<^verbatim>\<open>params\<close> is a fresh copy
  of the tool input, one level deep: what a callback does to the values inside it is seen
  here as far as the dispatcher reads them through \<^verbatim>\<open>params\<close>, and not in the copies of
  those values that the transcript and the events hold. The action it is handed is taken
  to be left as it is (it is a string wherever the \<^verbatim>\<open>switch\<close> has a case for it), and
  the callback is taken not to drive the endpoint or the Action Executor itself.
\<close>

type_synonym observer = "js \<Rightarrow> props \<Rightarrow> thrown option \<times> props"

definition call_invoke :: "'w env \<Rightarrow> string \<Rightarrow> props \<Rightarrow> 'w host \<Rightarrow> (thrown + string) \<times> 'w host" where
  "call_invoke E cmd args h =
     (case invoke E (world h) cmd args of
        (r, w) \<Rightarrow> (r, \<lparr>world = w, trace = trace h @ [Invoke cmd args]\<rparr>))"

definition notify ::
  "observer option \<Rightarrow> js \<Rightarrow> props \<Rightarrow> 'w host \<Rightarrow> (thrown option \<times> props) \<times> 'w host" where
  "notify onActionExecuted action params h =
     (case onActionExecuted of
        None \<Rightarrow> ((None, params), h)
      | Some f \<Rightarrow> (f action params, h\<lparr>trace := trace h @ [Notify action params]\<rparr>))"

section \<open>The Tool Dispatcher: \<^verbatim>\<open>executeComputerAction\<close>\<close>

definition text_result :: "props \<Rightarrow> string \<Rightarrow> tool_result" where
  "text_result params r =
     \<lparr>tool_use_id = own_prop params ''tool_use_id'', content = TextContent r, is_error = False\<rparr>"

definition image_result :: "props \<Rightarrow> string \<Rightarrow> tool_result" where
  "image_result params base64Image =
     \<lparr>tool_use_id = own_prop params ''tool_use_id'', content = ImageContent base64Image,
      is_error = False\<rparr>"

definition error_result :: "props \<Rightarrow> string \<Rightarrow> tool_result" where
  "error_result params msg =
     \<lparr>tool_use_id = own_prop params ''tool_use_id'', content = TextContent msg, is_error = True\<rparr>"

text \<open>\<^verbatim>\<open>c[0]\<close> then \<^verbatim>\<open>c[1]\<close>, as the argument objects of the pointer commands read them.\<close>

definition xy :: "js \<Rightarrow> thrown + js \<times> js" where
  "xy c =
     (case js_index c 0 of
        Inl t \<Rightarrow> Inl t
      | Inr x \<Rightarrow> (case js_index c 1 of Inl t \<Rightarrow> Inl t | Inr y \<Rightarrow> Inr (x, y)))"

text \<open>A command whose answer becomes the text of the result.\<close>

definition invoke_text ::
  "'w env \<Rightarrow> string \<Rightarrow> props \<Rightarrow> props \<Rightarrow> 'w host \<Rightarrow> (thrown + tool_result) \<times> 'w host" where
  "invoke_text E cmd args params h =
     (case call_invoke E cmd args h of
        (Inl t, h') \<Rightarrow> (Inl t, h')
      | (Inr r, h') \<Rightarrow> (Inr (text_result params r), h'))"

text \<open>Line 370: the vertical delta of a scroll.\<close>

definition scrollY_of :: "props \<Rightarrow> thrown + js" where
  "scrollY_of params =
     (if own_prop params ''scroll_direction'' = Str ''down''
      then Inr (own_prop params ''scroll_amount'')
      else js_neg (own_prop params ''scroll_amount''))"

text \<open>
  The \<^verbatim>\<open>switch\<close> of lines 273--413. \<open>Inl\<close> is an exception on its way to the
  \<^verbatim>\<open>catch\<close> of line 414.
\<close>

definition switch_action ::
  "'w env \<Rightarrow> js \<Rightarrow> props \<Rightarrow> 'w host \<Rightarrow> (thrown + tool_result) \<times> 'w host" where
  "switch_action E action params h =
     (if action = Str ''screenshot'' then
        (case call_invoke E ''capture_to_base64'' [] h of
           (Inl t, h') \<Rightarrow> (Inl t, h')
         | (Inr base64Image, h') \<Rightarrow> (Inr (image_result params base64Image), h'))
      else if action = Str ''mouse_move'' then
        (case xy (own_prop params ''coordinate'') of
           Inl t \<Rightarrow> (Inl t, h)
         | Inr (x, y) \<Rightarrow>
             invoke_text E ''computer_mouse_move'' [(''x'', x), (''y'', y)] params h)
      else if action = Str ''left_click'' then
        (case xy (own_prop params ''coordinate'') of
           Inl t \<Rightarrow> (Inl t, h)
         | Inr (x, y) \<Rightarrow>
             invoke_text E ''computer_mouse_click''
               [(''x'', x), (''y'', y), (''button'', Str ''left'')] params h)
      else if action = Str ''right_click'' then
        (case xy (own_prop params ''coordinate'') of
           Inl t \<Rightarrow> (Inl t, h)
         | Inr (x, y) \<Rightarrow>
             invoke_text E ''computer_mouse_click''
               [(''x'', x), (''y'', y), (''button'', Str ''right'')] params h)
      else if action = Str ''middle_click'' then
        (case xy (own_prop params ''coordinate'') of
           Inl t \<Rightarrow> (Inl t, h)
         | Inr (x, y) \<Rightarrow>
             invoke_text E ''computer_mouse_click''
               [(''x'', x), (''y'', y), (''button'', Str ''middle'')] params h)
      else if action = Str ''double_click'' then
        (case xy (own_prop params ''coordinate'') of
           Inl t \<Rightarrow> (Inl t, h)
         | Inr (x, y) \<Rightarrow>
             invoke_text E ''computer_mouse_double_click'' [(''x'', x), (''y'', y)] params h)
      else if action = Str ''left_click_drag'' then
        (case xy (own_prop params ''start_coordinate'') of
           Inl t \<Rightarrow> (Inl t, h)
         | Inr (fromX, fromY) \<Rightarrow>
             (case xy (own_prop params ''end_coordinate'') of
                Inl t \<Rightarrow> (Inl t, h)
              | Inr (toX, toY) \<Rightarrow>
                  invoke_text E ''computer_mouse_drag''
                    [(''fromX'', fromX), (''fromY'', fromY), (''toX'', toX), (''toY'', toY)]
                    params h))
      else if action = Str ''scroll'' then
        (case scrollY_of params of
           Inl t \<Rightarrow> (Inl t, h)
         | Inr scrollY \<Rightarrow>
             invoke_text E ''computer_mouse_scroll''
               [(''x'', js_or (js_opt_index (own_prop params ''coordinate'') 0) (Num 0)),
                (''y'', js_or (js_opt_index (own_prop params ''coordinate'') 1) (Num 0)),
                (''scrollX'', Num 0),
                (''scrollY'', scrollY)] params h)
      else if action = Str ''type'' then
        invoke_text E ''computer_keyboard_type'' [(''text'', own_prop params ''text'')] params h
      else if action = Str ''key'' then
        invoke_text E ''computer_keyboard_key'' [(''key'', own_prop params ''text'')] params h
      else
        (case js_to_string action of
           Inl t \<Rightarrow> (Inl t, h)
         | Inr name \<Rightarrow> (Inr (error_result params (''Unsupported action: '' @ name)), h)))"

text \<open>
  The body of the \<^verbatim>\<open>try\<close> (lines 268--413) once the observer has been called: what the
  observer threw, if it did, or else the \<^verbatim>\<open>switch\<close>. \<open>params\<close> is the object as the
  observer left it.
\<close>

definition try_action ::
  "'w env \<Rightarrow> js \<Rightarrow> props \<Rightarrow> thrown option \<Rightarrow> 'w host \<Rightarrow> (thrown + tool_result) \<times> 'w host" where
  "try_action E action params thrown_by_observer h =
     (case thrown_by_observer of
        Some t \<Rightarrow> (Inl t, h)
      | None \<Rightarrow> switch_action E action params h)"

text \<open>
  The \<^verbatim>\<open>catch\<close> (lines 414--422). Its first statement puts \<^verbatim>\<open>action\<close> into a template
  and its result puts the exception into one; where either conversion throws, that
  exception leaves the function.
\<close>

definition catch_clause :: "js \<Rightarrow> props \<Rightarrow> thrown \<Rightarrow> thrown + tool_result" where
  "catch_clause action params error =
     (case js_to_string action of
        Inl e \<Rightarrow> Inl e
      | Inr name \<Rightarrow>
          (case error_message error of
             Inl e \<Rightarrow> Inl e
           | Inr msg \<Rightarrow> Inr (error_result params (''Error: '' @ msg))))"

text \<open>
  \<^verbatim>\<open>executeComputerAction\<close> (lines 262--423). It is private to the module and its one
  caller passes a fresh object as \<^verbatim>\<open>params\<close>, so \<^verbatim>\<open>params\<close> is the property list of an
  object. \<open>Inl\<close> is an exception that leaves the function.
\<close>

definition executeComputerAction ::
  "'w env \<Rightarrow> js \<Rightarrow> props \<Rightarrow> observer option \<Rightarrow> 'w host \<Rightarrow> (thrown + tool_result) \<times> 'w host" where
  "executeComputerAction E action params onActionExecuted h =
     (case notify onActionExecuted action params h of
        ((thrown_by_observer, params'), h1) \<Rightarrow>
          (case try_action E action params' thrown_by_observer h1 of
             (Inr result, h2) \<Rightarrow> (Inr result, h2)
           | (Inl error, h2) \<Rightarrow> (catch_clause action params' error, h2)))"

section \<open>The Agent Loop Controller: \<^verbatim>\<open>computerUseAgentLoop\<close>\<close>

text \<open>
  Modelled from the spec: the type \<^verbatim>\<open>ComputerUseConfig\<close> is declared in \<^verbatim>\<open>@/types\<close>,
  which is not among the sources. Its fields are those the loop and the settings
  component read; \<^verbatim>\<open>maxIterations\<close> is a whole number (the settings parse it with
  \<^verbatim>\<open>parseInt\<close>).
\<close>

record ComputerUseConfig =
  enabled :: bool
  model :: string
  maxIterations :: int
  displayWidth :: int
  displayHeight :: int
  showLiveFeedback :: bool

text \<open>
  The values the generator yields. \<^verbatim>\<open>data\<close> is absent, \<^verbatim>\<open>{iteration}\<close> or
  \<^verbatim>\<open>{action, params}\<close>.
\<close>

datatype event_type = TextEvent | ActionEvent | ThinkingEvent | ErrorEvent | CompleteEvent

datatype event_data = NoData | IterationData int | ActionData js js

record event =
  ev_type :: event_type
  ev_content :: js
  ev_data :: event_data

text \<open>
  The generator returns nothing; how a session ended shows in its last event. The model
  names the four ways out of the function: \<open>Completed\<close> for the two \<^verbatim>\<open>return\<close>s after
  a \<^verbatim>\<open>complete\<close> event (lines 523 and 560), \<open>TransportError\<close> for the \<^verbatim>\<open>return\<close> after
  \<^verbatim>\<open>API Error\<close> (line 488), \<open>BudgetExceeded\<close> for the end of the \<^verbatim>\<open>while\<close> (line 565)
  and \<open>ProtocolError\<close> for the \<^verbatim>\<open>catch\<close> of line 569, which any exception of the loop
  reaches. \<open>Threw\<close> is the one way out that yields no last event: the \<^verbatim>\<open>catch\<close> itself
  throws, where \<^verbatim>\<open>String(error)\<close> does.

  The session is modelled as run to its end by a consumer that only reads what it is
  handed: the events carry the tool input itself, and a consumer that wrote to it between
  two events, or closed the generator, is outside the model.
\<close>

datatype outcome = Completed | BudgetExceeded | TransportError | ProtocolError | Threw thrown

record 'w session =
  messages :: "message list"
  events :: "event list"
  host :: "'w host"

text \<open>The object literals the generator yields.\<close>

definition iteration_event :: "int \<Rightarrow> ComputerUseConfig \<Rightarrow> event" where
  "iteration_event iterations config =
     \<lparr>ev_type = ActionEvent,
      ev_content = Str (''Iteration '' @ show_int iterations @ ''/''
                        @ show_int (maxIterations config)),
      ev_data = IterationData iterations\<rparr>"

definition action_event :: "string \<Rightarrow> js \<Rightarrow> js \<Rightarrow> event" where
  "action_event name action input =
     \<lparr>ev_type = ActionEvent, ev_content = Str (''Executing: '' @ name),
      ev_data = ActionData action input\<rparr>"

definition api_error_event :: "response \<Rightarrow> event" where
  "api_error_event response =
     \<lparr>ev_type = ErrorEvent,
      ev_content = Str (''API Error: '' @ show_int (status response) @ '' - ''
                        @ text_body response),
      ev_data = NoData\<rparr>"

definition complete_event :: event where
  "complete_event =
     \<lparr>ev_type = CompleteEvent, ev_content = Str ''Task completed successfully'',
      ev_data = NoData\<rparr>"

definition max_iterations_event :: "ComputerUseConfig \<Rightarrow> event" where
  "max_iterations_event config =
     \<lparr>ev_type = ErrorEvent,
      ev_content = Str (''Reached maximum iterations ('' @ show_int (maxIterations config)
                        @ '')''),
      ev_data = NoData\<rparr>"

definition caught_event :: "string \<Rightarrow> event" where
  "caught_event msg =
     \<lparr>ev_type = ErrorEvent, ev_content = Str (''Error: '' @ msg), ev_data = NoData\<rparr>"

definition yield :: "event \<Rightarrow> 'w session \<Rightarrow> 'w session" where
  "yield e s = s\<lparr>events := events s @ [e]\<rparr>"

definition push :: "message \<Rightarrow> 'w session \<Rightarrow> 'w session" where
  "push m s = s\<lparr>messages := messages s @ [m]\<rparr>"

definition call_fetch :: "'w env \<Rightarrow> request \<Rightarrow> 'w host \<Rightarrow> (thrown + response) \<times> 'w host" where
  "call_fetch E req h =
     (case tauriFetch E (world h) req of
        (r, w) \<Rightarrow> (r, \<lparr>world = w, trace = trace h @ [Fetch req]\<rparr>))"

text \<open>What \<^verbatim>\<open>for (const block of v)\<close> runs over: the elements of an array, the characters
  of a string; nothing else among these values is iterable.\<close>

fun iterate :: "js \<Rightarrow> thrown + js list" where
  "iterate (Arr xs) = Inr xs"
| "iterate (Str s) = Inr (map (\<lambda>c. Str [c]) s)"
| "iterate v = Inl (TypeError ''data.content is not iterable'')"

text \<open>
  Lines 500--512: the events of the text and thinking blocks. The events yielded before
  an exception stay yielded.
\<close>

fun narrate :: "js list \<Rightarrow> event list \<times> thrown option" where
  "narrate [] = ([], None)"
| "narrate (block # rest) =
     (case js_get block ''type'' of
        Inl t \<Rightarrow> ([], Some t)
      | Inr ty \<Rightarrow>
          if ty = Str ''text'' then
            (case js_get block ''text'' of
               Inl t \<Rightarrow> ([], Some t)
             | Inr txt \<Rightarrow>
                 (case narrate rest of
                    (evs, r) \<Rightarrow>
                      (\<lparr>ev_type = TextEvent, ev_content = txt, ev_data = NoData\<rparr> # evs, r)))
          else if ty = Str ''thinking'' then
            (case js_get block ''thinking'' of
               Inl t \<Rightarrow> ([], Some t)
             | Inr th \<Rightarrow>
                 (case narrate rest of
                    (evs, r) \<Rightarrow>
                      (\<lparr>ev_type = ThinkingEvent, ev_content = th, ev_data = NoData\<rparr> # evs, r)))
          else narrate rest)"

text \<open>Line 515: \<^verbatim>\<open>data.content.filter(block => block.type === "tool_use")\<close>. Only an
  array has \<^verbatim>\<open>filter\<close>.\<close>

fun filter_tool_use :: "js list \<Rightarrow> thrown + js list" where
  "filter_tool_use [] = Inr []"
| "filter_tool_use (block # rest) =
     (case js_get block ''type'' of
        Inl t \<Rightarrow> Inl t
      | Inr ty \<Rightarrow>
          (case filter_tool_use rest of
             Inl t \<Rightarrow> Inl t
           | Inr kept \<Rightarrow> Inr (if ty = Str ''tool_use'' then block # kept else kept)))"

fun tool_uses :: "js \<Rightarrow> thrown + js list" where
  "tool_uses (Arr xs) = filter_tool_use xs"
| "tool_uses v = Inl (TypeError ''data.content.filter is not a function'')"

text \<open>
  Lines 530--545, the body of the \<^verbatim>\<open>for\<close> over the tool uses: the action event, whose
  text puts the action into a template, then the dispatch with
  \<^verbatim>\<open>{...toolUse.input, tool_use_id: toolUse.id}\<close>. An exception that leaves the dispatcher
  goes on to the \<^verbatim>\<open>catch\<close> of the loop.
\<close>

definition run_tool ::
  "'w env \<Rightarrow> observer option \<Rightarrow> js \<Rightarrow> 'w session \<Rightarrow> (thrown + tool_result) \<times> 'w session" where
  "run_tool E onActionExecuted toolUse s =
     (case js_get toolUse ''input'' of
        Inl t \<Rightarrow> (Inl t, s)
      | Inr input \<Rightarrow>
          (case js_get input ''action'' of
             Inl t \<Rightarrow> (Inl t, s)
           | Inr action \<Rightarrow>
               (case js_to_string action of
                  Inl t \<Rightarrow> (Inl t, s)
                | Inr name \<Rightarrow>
                    (let s1 = yield (action_event name action input) s
                     in case js_get toolUse ''id'' of
                          Inl t \<Rightarrow> (Inl t, s1)
                        | Inr tid \<Rightarrow>
                            (case executeComputerAction E action
                                    (set_prop (js_spread input) ''tool_use_id'' tid)
                                    onActionExecuted (host s1) of
                               (r, h) \<Rightarrow> (r, s1\<lparr>host := h\<rparr>))))))"

text \<open>Lines 527--546: the tool uses in turn, their results collected in order.\<close>

fun run_tools ::
  "'w env \<Rightarrow> observer option \<Rightarrow> js list \<Rightarrow> 'w session \<Rightarrow> (thrown + tool_result list) \<times> 'w session" where
  "run_tools E onActionExecuted [] s = (Inr [], s)"
| "run_tools E onActionExecuted (toolUse # rest) s =
     (case run_tool E onActionExecuted toolUse s of
        (Inl t, s1) \<Rightarrow> (Inl t, s1)
      | (Inr result, s1) \<Rightarrow>
          (case run_tools E onActionExecuted rest s1 of
             (Inl t, s2) \<Rightarrow> (Inl t, s2)
           | (Inr results, s2) \<Rightarrow> (Inr (result # results), s2)))"

text \<open>
  Lines 493--561: what one iteration does with the parsed body. \<open>Inr None\<close> goes on to
  the next test of the \<^verbatim>\<open>while\<close>, \<open>Inr (Some out)\<close> is a \<^verbatim>\<open>return\<close>, \<open>Inl\<close> an
  exception.
\<close>

definition process_reply ::
  "'w env \<Rightarrow> observer option \<Rightarrow> js \<Rightarrow> 'w session \<Rightarrow> (thrown + outcome option) \<times> 'w session" where
  "process_reply E onActionExecuted data s =
     (case js_get data ''content'' of
        Inl t \<Rightarrow> (Inl t, s)
      | Inr cont \<Rightarrow>
          (let s1 = push \<lparr>role = Assistant, body = Reply cont\<rparr> s
           in case iterate cont of
                Inl t \<Rightarrow> (Inl t, s1)
              | Inr blocks \<Rightarrow>
                  (case narrate blocks of
                     (evs, Some t) \<Rightarrow> (Inl t, s1\<lparr>events := events s1 @ evs\<rparr>)
                   | (evs, None) \<Rightarrow>
                       (let s2 = s1\<lparr>events := events s1 @ evs\<rparr>
                        in case tool_uses cont of
                             Inl t \<Rightarrow> (Inl t, s2)
                           | Inr toolUses \<Rightarrow>
                               if length toolUses = 0 then
                                 (Inr (Some Completed),
                                  yield complete_event s2)
                               else
                                 (case run_tools E onActionExecuted toolUses s2 of
                                    (Inl t, s3) \<Rightarrow> (Inl t, s3)
                                  | (Inr toolResults, s3) \<Rightarrow>
                                      (let s4 = push \<lparr>role = User, body = Results toolResults\<rparr> s3
                                       in case js_get data ''stop_reason'' of
                                            Inl t \<Rightarrow> (Inl t, s4)
                                          | Inr stop_reason \<Rightarrow>
                                              if stop_reason = Str ''end_turn'' then
                                                (Inr (Some Completed),
                                                 yield complete_event s4)
                                              else (Inr None, s4)))))))"

text \<open>Lines 464--480: the request, with the transcript as it stands.\<close>

definition request_of ::
  "ComputerUseConfig \<Rightarrow> string \<Rightarrow> string option \<Rightarrow> ComputerUseTool list \<Rightarrow> message list \<Rightarrow> request" where
  "request_of config apiKey systemPrompt tools msgs =
     \<lparr>x_api_key = apiKey, req_model = model config, max_tokens = 4096,
      req_messages = msgs, req_tools = tools, req_system = systemPrompt\<rparr>"

text \<open>
  Lines 455--561, one pass through the body of the \<^verbatim>\<open>while\<close>. \<open>iterations\<close> is the
  counter after \<^verbatim>\<open>iterations++\<close>.
\<close>

definition loop_body ::
  "'w env \<Rightarrow> ComputerUseConfig \<Rightarrow> string \<Rightarrow> string option \<Rightarrow> observer option \<Rightarrow>
   ComputerUseTool list \<Rightarrow> int \<Rightarrow> 'w session \<Rightarrow> (thrown + outcome option) \<times> 'w session" where
  "loop_body E config apiKey systemPrompt onActionExecuted tools iterations s =
     (let s1 = yield (iteration_event iterations config) s
      in case call_fetch E (request_of config apiKey systemPrompt tools (messages s1)) (host s1) of
           (Inl t, h) \<Rightarrow> (Inl t, s1\<lparr>host := h\<rparr>)
         | (Inr response, h) \<Rightarrow>
             if \<not> ok response then
               (Inr (Some TransportError),
                yield (api_error_event response) (s1\<lparr>host := h\<rparr>))
             else
               (case json_body response of
                  Inl msg \<Rightarrow> (Inl (ErrorObject msg), s1\<lparr>host := h\<rparr>)
                | Inr data \<Rightarrow> process_reply E onActionExecuted data (s1\<lparr>host := h\<rparr>)))"

text \<open>Lines 454--562: the \<^verbatim>\<open>while\<close>. \<open>Inr None\<close> is its normal end.\<close>

function while_loop ::
  "'w env \<Rightarrow> ComputerUseConfig \<Rightarrow> string \<Rightarrow> string option \<Rightarrow> observer option \<Rightarrow>
   ComputerUseTool list \<Rightarrow> int \<Rightarrow> 'w session \<Rightarrow> (thrown + outcome option) \<times> 'w session" where
  "while_loop E config apiKey systemPrompt onActionExecuted tools iterations s =
     (if iterations < maxIterations config then
        (case loop_body E config apiKey systemPrompt onActionExecuted tools (iterations + 1) s of
           (Inr None, s') \<Rightarrow>
             while_loop E config apiKey systemPrompt onActionExecuted tools (iterations + 1) s'
         | (r, s') \<Rightarrow> (r, s'))
      else (Inr None, s))"
  by pat_completeness auto
termination
  by (relation "measure (\<lambda>(E, config, apiKey, systemPrompt, onActionExecuted, tools, iterations, s).
        nat (maxIterations config - iterations))") auto

declare while_loop.simps [simp del]

text \<open>
  Lines 564--575: after the \<^verbatim>\<open>while\<close>, and the \<^verbatim>\<open>catch\<close> around it. A \<^verbatim>\<open>return\<close>
  inside the loop passes through.
\<close>

definition finish ::
  "ComputerUseConfig \<Rightarrow> (thrown + outcome option) \<times> 'w session \<Rightarrow> outcome \<times> 'w session" where
  "finish config r =
     (case r of
        (Inr (Some out), s) \<Rightarrow> (out, s)
      | (Inr None, s) \<Rightarrow>
          (BudgetExceeded,
           yield (max_iterations_event config) s)
      | (Inl error, s) \<Rightarrow>
          (case error_message error of
             Inr msg \<Rightarrow> (ProtocolError, yield (caught_event msg) s)
           | Inl e \<Rightarrow> (Threw e, s)))"

text \<open>Lines 441--449: the one tool declared to the endpoint.\<close>

definition the_tools :: "ComputerUseConfig \<Rightarrow> ComputerUseTool list" where
  "the_tools config =
     [\<lparr>tool_type = ''computer_20250124'', tool_name = ''computer'',
       display_width_px = displayWidth config,
       display_height_px = displayHeight config, display_number = 1\<rparr>]"

text \<open>Lines 433--438: the transcript starts with the user's message; nothing was yielded or
  called yet.\<close>

definition seed :: "string \<Rightarrow> 'w \<Rightarrow> 'w session" where
  "seed userMessage w =
     \<lparr>messages = [\<lparr>role = User, body = Plain userMessage\<rparr>], events = [],
      host = \<lparr>world = w, trace = []\<rparr>\<rparr>"

text \<open>
  \<^verbatim>\<open>computerUseAgentLoop\<close> (lines 426--576): the way out, with the events yielded, the
  transcript and the host at the end.
\<close>

definition computerUseAgentLoop ::
  "'w env \<Rightarrow> string \<Rightarrow> ComputerUseConfig \<Rightarrow> string \<Rightarrow> string option \<Rightarrow> observer option \<Rightarrow>
   'w \<Rightarrow> outcome \<times> 'w session" where
  "computerUseAgentLoop E userMessage config apiKey systemPrompt onActionExecuted w =
     finish config
       (while_loop E config apiKey systemPrompt onActionExecuted (the_tools config) 0
          (seed userMessage w))"

section \<open>Vocabulary of the properties\<close>

text \<open>The action names that have a \<^verbatim>\<open>case\<close> in the \<^verbatim>\<open>switch\<close>.\<close>

definition supported_actions :: "string list" where
  "supported_actions =
     [''screenshot'', ''mouse_move'', ''left_click'', ''right_click'', ''middle_click'',
      ''double_click'', ''left_click_drag'', ''scroll'', ''type'', ''key'']"

text \<open>An observer that is absent, or returns from this call.\<close>

definition observer_returns :: "observer option \<Rightarrow> js \<Rightarrow> props \<Rightarrow> bool" where
  "observer_returns onActionExecuted action params =
     (case onActionExecuted of None \<Rightarrow> True | Some f \<Rightarrow> fst (f action params) = None)"

text \<open>The \<^verbatim>\<open>params\<close> object as the call of the observer, if there is one, leaves it.\<close>

definition params_after :: "observer option \<Rightarrow> js \<Rightarrow> props \<Rightarrow> props" where
  "params_after onActionExecuted action params =
     (case onActionExecuted of None \<Rightarrow> params | Some f \<Rightarrow> snd (f action params))"

text \<open>
  An observer that is absent, or returns from this call and leaves \<^verbatim>\<open>params\<close> as it
  was; and one that does so at every call.
\<close>

definition observer_leaves :: "observer option \<Rightarrow> js \<Rightarrow> props \<Rightarrow> bool" where
  "observer_leaves onActionExecuted action params =
     (case onActionExecuted of None \<Rightarrow> True | Some f \<Rightarrow> f action params = (None, params))"

definition observer_quiet :: "observer option \<Rightarrow> bool" where
  "observer_quiet onActionExecuted =
     (\<forall>action params. observer_leaves onActionExecuted action params)"

text \<open>
  A value that a template can hold, and an exception whose message the \<^verbatim>\<open>catch\<close> clauses
  can form: an \<^verbatim>\<open>Error\<close>, or a value that \<^verbatim>\<open>String\<close> converts.
\<close>

definition stringable :: "js \<Rightarrow> bool" where
  "stringable v = (case js_to_string v of Inl t \<Rightarrow> False | Inr s \<Rightarrow> True)"

definition describable :: "thrown \<Rightarrow> bool" where
  "describable t = (case error_message t of Inl e \<Rightarrow> False | Inr msg \<Rightarrow> True)"

text \<open>
  An Action Executor whose failures all have such a message, and an observer that, where it
  throws, throws such an exception.
\<close>

definition executor_tame :: "'w env \<Rightarrow> bool" where
  "executor_tame E =
     (\<forall>w cmd args. case fst (invoke E w cmd args) of Inl t \<Rightarrow> describable t | Inr r \<Rightarrow> True)"

definition observer_tame :: "observer option \<Rightarrow> bool" where
  "observer_tame onActionExecuted =
     (case onActionExecuted of
        None \<Rightarrow> True
      | Some f \<Rightarrow>
          (\<forall>action params. case fst (f action params) of None \<Rightarrow> True | Some t \<Rightarrow> describable t))"

text \<open>The effects between two states of the host, and the commands among some effects.\<close>

definition new_effects :: "'w host \<Rightarrow> 'w host \<Rightarrow> effect list" where
  "new_effects h h' = drop (length (trace h)) (trace h')"

fun invocations :: "effect list \<Rightarrow> (string \<times> props) list" where
  "invocations [] = []"
| "invocations (Invoke cmd args # es) = (cmd, args) # invocations es"
| "invocations (e # es) = invocations es"

fun fetches :: "effect list \<Rightarrow> request list" where
  "fetches [] = []"
| "fetches (Fetch req # es) = req # fetches es"
| "fetches (e # es) = fetches es"

text \<open>The events yielded between two states of a session.\<close>

definition new_events :: "'w session \<Rightarrow> 'w session \<Rightarrow> event list" where
  "new_events s s' = drop (length (events s)) (events s')"

text \<open>The counters of the iteration events among some events.\<close>

fun iteration_counters :: "event list \<Rightarrow> int list" where
  "iteration_counters [] = []"
| "iteration_counters (e # es) =
     (case ev_data e of
        IterationData n \<Rightarrow> n # iteration_counters es
      | _ \<Rightarrow> iteration_counters es)"

text \<open>
  A parsed body that the loop can read to the end of the round: \<^verbatim>\<open>content\<close> is an array,
  no block of it is \<^verbatim>\<open>null\<close>, and every tool-use block has an \<^verbatim>\<open>input\<close> other than
  \<^verbatim>\<open>null\<close> or \<^verbatim>\<open>undefined\<close>.
\<close>

definition nullish :: "js \<Rightarrow> bool" where
  "nullish v = (v = Undefined \<or> v = Null)"

definition is_tool_use :: "js \<Rightarrow> bool" where
  "is_tool_use block = (js_get block ''type'' = Inr (Str ''tool_use''))"

definition has_input :: "js \<Rightarrow> bool" where
  "has_input toolUse =
     (case js_get toolUse ''input'' of Inl t \<Rightarrow> False | Inr input \<Rightarrow> \<not> nullish input)"

definition reply_blocks :: "js \<Rightarrow> js list option" where
  "reply_blocks data =
     (case js_get data ''content'' of Inr (Arr blocks) \<Rightarrow> Some blocks | _ \<Rightarrow> None)"

definition reply_tool_uses :: "js \<Rightarrow> js list" where
  "reply_tool_uses data =
     (case reply_blocks data of None \<Rightarrow> [] | Some blocks \<Rightarrow> filter is_tool_use blocks)"

definition readable_reply :: "js \<Rightarrow> bool" where
  "readable_reply data =
     (case reply_blocks data of
        None \<Rightarrow> False
      | Some blocks \<Rightarrow>
          list_all (\<lambda>b. \<not> nullish b) blocks \<and> list_all has_input (filter is_tool_use blocks))"

definition end_turn :: "js \<Rightarrow> bool" where
  "end_turn data = (js_get data ''stop_reason'' = Inr (Str ''end_turn''))"

text \<open>
  A readable reply whose tool uses the loop can also announce: the action of each can be
  put into the template of its event.
\<close>

definition announceable :: "js \<Rightarrow> bool" where
  "announceable toolUse =
     (case js_get toolUse ''input'' of
        Inl t \<Rightarrow> False
      | Inr input \<Rightarrow> (case js_get input ''action'' of Inl t \<Rightarrow> False | Inr action \<Rightarrow> stringable action))"

definition runnable_reply :: "js \<Rightarrow> bool" where
  "runnable_reply data = (readable_reply data \<and> list_all announceable (reply_tool_uses data))"

text \<open>A later state of a session that has no new iteration event and no new endpoint call.\<close>

definition extends :: "'w session \<Rightarrow> 'w session \<Rightarrow> bool" where
  "extends s s' =
     ((\<exists>evs. events s' = events s @ evs \<and> iteration_counters evs = [])
      \<and> (\<exists>es. trace (host s') = trace (host s) @ es \<and> fetches es = []))"

definition after_fetch ::
  "ComputerUseConfig \<Rightarrow> string \<Rightarrow> string option \<Rightarrow> ComputerUseTool list \<Rightarrow> int \<Rightarrow> 'w \<Rightarrow>
   'w session \<Rightarrow> 'w session" where
  "after_fetch config apiKey systemPrompt tools iterations w s =
     (yield (iteration_event iterations config) s)
       \<lparr>host := \<lparr>world = w,
                 trace = trace (host s)
                         @ [Fetch (request_of config apiKey systemPrompt tools (messages s))]\<rparr>\<rparr>"

definition narrated :: "js list \<Rightarrow> 'w session \<Rightarrow> 'w session" where
  "narrated blocks s =
     (push \<lparr>role = Assistant, body = Reply (Arr blocks)\<rparr> s)
       \<lparr>events := events s @ fst (narrate blocks)\<rparr>"





section \<open>Concrete hosts and inputs\<close>

text \<open>Small closed instances on which the properties below are exercised.\<close>

definition idle :: "unit host" where
  "idle = \<lparr>world = (), trace = []\<rparr>"

definition replying :: "js \<Rightarrow> unit \<Rightarrow> request \<Rightarrow> (thrown + response) \<times> unit" where
  "replying data w req = (Inr \<lparr>ok = True, status = 200, text_body = [], json_body = Inr data\<rparr>, w)"

definition obliging_env :: "js \<Rightarrow> unit env" where
  "obliging_env data = \<lparr>tauriFetch = replying data, invoke = (\<lambda>w cmd args. (Inr ''done'', w))\<rparr>"

definition refusing_env :: "js \<Rightarrow> unit env" where
  "refusing_env data =
     \<lparr>tauriFetch = replying data,
      invoke = (\<lambda>w cmd args. (Inl (Rejected (Str ''click failed'')), w))\<rparr>"

definition fly_params :: props where
  "fly_params = [(''action'', Str ''fly''), (''tool_use_id'', Str ''toolu_1'')]"

definition scroll_params :: "string \<Rightarrow> props" where
  "scroll_params dir =
     [(''action'', Str ''scroll''), (''scroll_direction'', Str dir), (''scroll_amount'', Num 5),
      (''tool_use_id'', Str ''toolu_2'')]"

definition click_params :: props where
  "click_params =
     [(''action'', Str ''left_click''), (''coordinate'', Arr [Num 100, Num 200]),
      (''tool_use_id'', Str ''toolu_3'')]"



definition rewriting_observer :: observer where
  "rewriting_observer action params = (None, set_prop params ''tool_use_id'' (Str ''hijacked''))"

definition budget :: "int \<Rightarrow> ComputerUseConfig" where
  "budget n =
     \<lparr>enabled = True, model = ''claude-sonnet-4-5-20250929'', maxIterations = n,
      displayWidth = 1024, displayHeight = 768, showLiveFeedback = True\<rparr>"

definition two_tools_reply :: js where
  "two_tools_reply =
     Obj [(''content'',
           Arr [Obj [(''type'', Str ''text''), (''text'', Str ''Scrolling, then flying.'')],
                Obj [(''type'', Str ''tool_use''), (''id'', Str ''toolu_2''),
                     (''input'', Obj [(''action'', Str ''scroll''),
                                      (''scroll_direction'', Str ''up''),
                                      (''scroll_amount'', Num 5)])],
                Obj [(''type'', Str ''tool_use''), (''id'', Str ''toolu_1''),
                     (''input'', Obj [(''action'', Str ''fly'')])]]),
          (''stop_reason'', Str ''tool_use'')]"

definition fresh :: "unit session" where
  "fresh = seed ''scroll up, then fly'' ()"

definition end_turn_reply :: js where
  "end_turn_reply =
     Obj [(''content'',
           Arr [Obj [(''type'', Str ''tool_use''), (''id'', Str ''toolu_4''),
                     (''input'', Obj [(''action'', Str ''key''), (''text'', Str ''Return'')])]]),
          (''stop_reason'', Str ''end_turn'')]"

definition text_reply :: js where
  "text_reply =
     Obj [(''content'', Arr [Obj [(''type'', Str ''text''), (''text'', Str ''All done.'')]]),
          (''stop_reason'', Str ''end_turn'')]"

definition overloaded_env :: "unit env" where
  "overloaded_env =
     \<lparr>tauriFetch = (\<lambda>w req. (Inr \<lparr>ok = False, status = 529, text_body = ''overloaded'',
                                  json_body = Inl ''Unexpected token''\<rparr>, w)),
      invoke = (\<lambda>w cmd args. (Inr ''done'', w))\<rparr>"




definition click_reply :: js where
  "click_reply =
     Obj [(''content'',
           Arr [Obj [(''type'', Str ''tool_use''), (''id'', Str ''toolu_3''),
                     (''input'', Obj [(''action'', Str ''left_click''),
                                      (''coordinate'', Arr [Num 100, Num 200])])]]),
          (''stop_reason'', Str ''tool_use'')]"

section \<open>Facts about the conversions\<close>

lemma in_order_Inl: "in_order rs = Inl t \<Longrightarrow> Inl t \<in> set rs"
  by (induction rs) (auto split: sum.splits)

lemma js_to_string_throws: "js_to_string v = Inl t \<Longrightarrow> \<exists>m. t = ErrorObject m"
proof (induction v arbitrary: t rule: js_to_string.induct)
  case (7 xs)
  then obtain t' where io: "in_order (map (\<lambda>x. if x = Undefined \<or> x = Null then Inr [] else js_to_string x) xs) = Inl t'"
    and t: "t = t'"
    by (auto split: sum.splits)
  from in_order_Inl [OF io] obtain x where x: "x \<in> set xs" "\<not> (x = Undefined \<or> x = Null)"
      "js_to_string x = Inl t'"
    by (auto split: if_splits)
  from 7(1) [OF x] t show ?case by simp
qed (auto simp: TypeError_def split: if_splits)


lemma describable_ErrorObject: "describable (ErrorObject m)"
  by (simp add: describable_def)

lemma describable_message: "describable t \<Longrightarrow> \<exists>m. error_message t = Inr m"
  by (simp add: describable_def split: sum.splits)

lemma stringable_name: "stringable v \<Longrightarrow> \<exists>name. js_to_string v = Inr name"
  by (simp add: stringable_def split: sum.splits)


lemma js_index_throws: "js_index v i = Inl t \<Longrightarrow> \<exists>m. t = ErrorObject m"
  by (cases v) (auto simp: TypeError_def)

lemma xy_throws: "xy c = Inl t \<Longrightarrow> \<exists>m. t = ErrorObject m"
  by (auto simp: xy_def dest: js_index_throws split: sum.splits)

lemma to_number_throws: "to_number v = Inl t \<Longrightarrow> \<exists>m. t = ErrorObject m"
  by (cases v)
     (auto simp: TypeError_def simp del: js_to_string.simps dest: js_to_string_throws
           split: sum.splits if_splits)

lemma scrollY_of_throws: "scrollY_of params = Inl t \<Longrightarrow> \<exists>m. t = ErrorObject m"
  by (auto simp: scrollY_of_def js_neg_def dest: to_number_throws split: if_splits sum.splits js.splits)


lemma catch_clause_result:
  "js_to_string action = Inr name \<Longrightarrow> error_message error = Inr msg \<Longrightarrow>
   catch_clause action params error = Inr (error_result params (''Error: '' @ msg))"
  by (simp add: catch_clause_def)

section \<open>Facts about the dispatcher\<close>

lemma own_prop_set_prop: "own_prop (set_prop ps k v) k = v"
  by (induction ps) (auto simp: own_prop_def)

lemma observer_leaves_returns:
  "observer_leaves obs a p \<Longrightarrow> observer_returns obs a p \<and> params_after obs a p = p"
  by (cases obs) (simp_all add: observer_leaves_def observer_returns_def params_after_def)

lemma observer_quiet_tame: "observer_quiet obs \<Longrightarrow> observer_tame obs"
  by (cases obs) (simp_all add: observer_quiet_def observer_leaves_def observer_tame_def)

lemma observer_quiet_after: "observer_quiet obs \<Longrightarrow> params_after obs a p = p"
  by (simp add: observer_quiet_def observer_leaves_returns)

lemma invoke_text_cases:
  "invoke_text E cmd args params h =
     (case invoke E (world h) cmd args of
        (Inl t, w) \<Rightarrow> (Inl t, \<lparr>world = w, trace = trace h @ [Invoke cmd args]\<rparr>)
      | (Inr r, w) \<Rightarrow> (Inr (text_result params r), \<lparr>world = w, trace = trace h @ [Invoke cmd args]\<rparr>))"
  by (simp add: invoke_text_def call_invoke_def split: prod.splits sum.splits)

lemma invoke_text_id:
  "invoke_text E cmd args params h = (Inr r, h') \<Longrightarrow> tool_use_id r = own_prop params ''tool_use_id''"
  by (auto simp: invoke_text_cases text_result_def split: prod.splits sum.splits)

lemma invoke_text_trace:
  "trace (snd (invoke_text E cmd args params h)) = trace h @ [Invoke cmd args]"
  by (auto simp: invoke_text_cases split: prod.splits sum.splits)

lemma invoke_text_throws:
  "invoke_text E cmd args params h = (Inl t, h') \<Longrightarrow> fst (invoke E (world h) cmd args) = Inl t"
  by (auto simp: invoke_text_cases split: prod.splits sum.splits)

lemma switch_action_id:
  "switch_action E action params h = (Inr r, h') \<Longrightarrow> tool_use_id r = own_prop params ''tool_use_id''"
  unfolding switch_action_def
  by (auto simp: image_result_def error_result_def call_invoke_def Let_def
           dest: invoke_text_id split: if_splits prod.splits sum.splits)

lemma switch_action_trace:
  "\<exists>es. trace (snd (switch_action E action params h)) = trace h @ es \<and> fetches es = []
        \<and> length (invocations es) \<le> 1 \<and> es = map (\<lambda>(c, a). Invoke c a) (invocations es)"
  unfolding switch_action_def
  by (auto simp: invoke_text_trace call_invoke_def Let_def split: if_splits prod.splits sum.splits)

lemma switch_action_frame:
  "switch_action E action params h = (r, h') \<Longrightarrow>
   switch_action E action params (h\<lparr>trace := tr\<rparr>) = (r, h'\<lparr>trace := tr @ new_effects h h'\<rparr>)"
  unfolding switch_action_def
  by (auto simp: invoke_text_cases call_invoke_def Let_def new_effects_def
           split: if_splits prod.splits sum.splits)

lemma switch_action_failure:
  "switch_action E action params h = (r, h') \<Longrightarrow>
   invocations (new_effects h h') = [(cmd, args)] \<Longrightarrow>
   fst (invoke E (world h) cmd args) = Inl t \<Longrightarrow> r = Inl t \<and> action \<in> Str ` set supported_actions"
  unfolding switch_action_def
  by (auto simp: invoke_text_cases call_invoke_def Let_def new_effects_def supported_actions_def
           split: if_splits prod.splits sum.splits)

lemma switch_action_always_fails:
  "(\<And>w cmd args. \<exists>t. fst (invoke E w cmd args) = Inl t) \<Longrightarrow>
   switch_action E action params h = (Inr r, h') \<Longrightarrow> is_error r"
  unfolding switch_action_def
  by (auto simp: invoke_text_cases call_invoke_def Let_def error_result_def
           split: if_splits prod.splits sum.splits) (metis fst_conv sum.distinct(1))+

lemma switch_action_throws:
  "switch_action E action params h = (Inl t, h') \<Longrightarrow>
   (\<exists>m. t = ErrorObject m) \<or> (\<exists>cmd args. fst (invoke E (world h) cmd args) = Inl t)"
  unfolding switch_action_def
  by (auto simp: call_invoke_def Let_def
           dest: invoke_text_throws xy_throws scrollY_of_throws js_to_string_throws
           split: if_splits prod.splits sum.splits) (metis fst_conv)+

lemma switch_action_describable:
  assumes "executor_tame E" and "switch_action E action params h = (Inl t, h')"
  shows "describable t"
proof -
  from switch_action_throws [OF assms(2)] show ?thesis
  proof
    assume "\<exists>m. t = ErrorObject m"
    then show ?thesis by (auto simp: describable_ErrorObject)
  next
    assume "\<exists>cmd args. fst (invoke E (world h) cmd args) = Inl t"
    then obtain cmd args where "fst (invoke E (world h) cmd args) = Inl t" by blast
    with assms(1) show ?thesis
      by (auto simp: executor_tame_def split: sum.splits dest: spec [of _ "world h"])
  qed
qed

lemma exec_without_observer:
  "executeComputerAction E action params None h =
     (case switch_action E action params h of
        (Inr result, h') \<Rightarrow> (Inr result, h')
      | (Inl error, h') \<Rightarrow> (catch_clause action params error, h'))"
  by (simp add: executeComputerAction_def try_action_def notify_def)

lemma exec_observer_returns:
  assumes "f action params = (None, p)"
  shows "executeComputerAction E action params (Some f) h =
     (fst (executeComputerAction E action p None h),
      (snd (executeComputerAction E action p None h))
        \<lparr>trace := trace h @ Notify action params
                    # new_effects h (snd (executeComputerAction E action p None h))\<rparr>)"
proof -
  obtain r h' where sw: "switch_action E action p h = (r, h')"
    by (cases "switch_action E action p h")
  have fr: "switch_action E action p (h\<lparr>trace := trace h @ [Notify action params]\<rparr>)
      = (r, h'\<lparr>trace := (trace h @ [Notify action params]) @ new_effects h h'\<rparr>)"
    using sw by (rule switch_action_frame)
  show ?thesis
    by (cases r)
       (simp_all add: exec_without_observer sw executeComputerAction_def try_action_def notify_def
          assms fr new_effects_def)
qed

lemma exec_observer_throws:
  assumes "f action params = (Some t, p)"
  shows "executeComputerAction E action params (Some f) h =
     (catch_clause action p t, h\<lparr>trace := trace h @ [Notify action params]\<rparr>)"
  by (simp add: executeComputerAction_def try_action_def notify_def assms)

lemma exec_observer_leaves:
  assumes "observer_leaves obs action params"
  shows "fst (executeComputerAction E action params obs h)
           = fst (executeComputerAction E action params None h)
       \<and> world (snd (executeComputerAction E action params obs h))
           = world (snd (executeComputerAction E action params None h))
       \<and> invocations (new_effects h (snd (executeComputerAction E action params obs h)))
           = invocations (new_effects h (snd (executeComputerAction E action params None h)))"
proof (cases obs)
  case None
  then show ?thesis by simp
next
  case (Some f)
  with assms have fp: "f action params = (None, params)" by (simp add: observer_leaves_def)
  show ?thesis
    by (simp add: Some exec_observer_returns [where f = f and E = E and h = h, OF fp]
          new_effects_def)
qed


lemma exec_id:
  assumes "fst (executeComputerAction E action params obs h) = Inr r"
  shows "tool_use_id r = own_prop (params_after obs action params) ''tool_use_id''"
proof -
  have none: "tool_use_id r = own_prop p ''tool_use_id''"
    if "fst (executeComputerAction E action p None h) = Inr r" for p
    using that
    by (auto simp: exec_without_observer catch_clause_def error_result_def
             dest: switch_action_id split: prod.splits sum.splits)
  show ?thesis
  proof (cases obs)
    case None
    with assms none show ?thesis by (simp add: params_after_def)
  next
    case (Some f)
    obtain x p where fp: "f action params = (x, p)" by (cases "f action params")
    show ?thesis
    proof (cases x)
      case None
      with fp have fp': "f action params = (None, p)" by simp
      show ?thesis
        using assms none [of p]
        by (simp add: Some exec_observer_returns [where f = f and E = E and h = h, OF fp']
              params_after_def fp')
    next
      case (Some t)
      with fp have fp': "f action params = (Some t, p)" by simp
      show ?thesis
        using assms
        by (auto simp: \<open>obs = Some f\<close>
                   exec_observer_throws [where f = f and E = E and h = h, OF fp']
                   params_after_def fp' catch_clause_def error_result_def
                 split: sum.splits)
    qed
  qed
qed


lemma exec_tame:
  assumes "executor_tame E" and "observer_tame obs" and "stringable action"
  shows "\<exists>r. fst (executeComputerAction E action params obs h) = Inr r"
proof -
  from assms(3) obtain name where nm: "js_to_string action = Inr name"
    using stringable_name by blast
  have caught: "\<exists>r. catch_clause action p t = Inr r" if "describable t" for p t
    using describable_message [OF that] nm by (auto simp: catch_clause_def)
  have none: "\<exists>r. fst (executeComputerAction E action p None h') = Inr r" for p and h' :: "'a host"
  proof -
    obtain x h'' where sw: "switch_action E action p h' = (x, h'')"
      by (cases "switch_action E action p h'")
    show ?thesis
    proof (cases x)
      case (Inl t)
      with sw assms(1) have "describable t" using switch_action_describable by blast
      from caught [OF this, of p] Inl sw show ?thesis by (simp add: exec_without_observer)
    next
      case (Inr r)
      with sw show ?thesis by (simp add: exec_without_observer)
    qed
  qed
  show ?thesis
  proof (cases obs)
    case None
    with none show ?thesis by simp
  next
    case (Some f)
    obtain x p where fp: "f action params = (x, p)" by (cases "f action params")
    show ?thesis
    proof (cases x)
      case None
      with fp have fp': "f action params = (None, p)" by simp
      show ?thesis
        using none [of p h]
        by (simp add: Some exec_observer_returns [where f = f and E = E and h = h, OF fp'])
    next
      case (Some t)
      with fp have fp': "f action params = (Some t, p)" by simp
      from assms(2) \<open>obs = Some f\<close>
      have "case fst (f action params) of None \<Rightarrow> True | Some t \<Rightarrow> describable t"
        by (simp add: observer_tame_def)
      then have "describable t" by (simp add: fp')
      from caught [OF this, of p] show ?thesis
        by (simp add: \<open>obs = Some f\<close>
              exec_observer_throws [where f = f and E = E and h = h, OF fp'])
    qed
  qed
qed

lemma exec_failure:
  assumes "invocations (new_effects h (snd (executeComputerAction E action params obs h))) = [(cmd, args)]"
    and "fst (invoke E (world h) cmd args) = Inl t"
    and "error_message t = Inr msg"
  shows "fst (executeComputerAction E action params obs h)
           = Inr (error_result (params_after obs action params) (''Error: '' @ msg))"
proof -
  have none: "fst (executeComputerAction E action p None h)
           = Inr (error_result p (''Error: '' @ msg))"
    if "invocations (new_effects h (snd (executeComputerAction E action p None h))) = [(cmd, args)]"
    for p
  proof -
    obtain r h' where sw: "switch_action E action p h = (r, h')"
      by (cases "switch_action E action p h")
    have "invocations (new_effects h h') = [(cmd, args)]"
      using that by (cases r) (simp_all add: exec_without_observer sw)
    from sw this assms(2) have "r = Inl t \<and> action \<in> Str ` set supported_actions"
      by (rule switch_action_failure)
    then obtain name where "r = Inl t" "js_to_string action = Inr name" by auto
    then show ?thesis
      by (simp add: exec_without_observer sw catch_clause_result [OF _ assms(3)])
  qed
  show ?thesis
  proof (cases obs)
    case None
    with assms(1) none show ?thesis by (simp add: params_after_def)
  next
    case (Some f)
    obtain x p where fp: "f action params = (x, p)" by (cases "f action params")
    show ?thesis
    proof (cases x)
      case None
      with fp have fp': "f action params = (None, p)" by simp
      show ?thesis
        using assms(1) none [of p]
        by (simp add: Some exec_observer_returns [where f = f and E = E and h = h, OF fp']
              new_effects_def params_after_def fp')
    next
      case (Some t')
      with fp have fp': "f action params = (Some t', p)" by simp
      show ?thesis
        using assms(1)
        by (simp add: \<open>obs = Some f\<close>
              exec_observer_throws [where f = f and E = E and h = h, OF fp'] new_effects_def)
    qed
  qed
qed

section \<open>Facts about one round\<close>

lemma js_get_Inr: "\<not> nullish v \<Longrightarrow> \<exists>x. js_get v k = Inr x"
  by (cases v) (simp_all add: nullish_def)


lemma js_get_Inr_nullish: "js_get v k = Inr x \<Longrightarrow> \<not> nullish v"
  by (cases v) (simp_all add: nullish_def)

lemma iteration_counters_append:
  "iteration_counters (xs @ ys) = iteration_counters xs @ iteration_counters ys"
  by (induction xs) (simp_all split: event_data.splits)

lemma narrate_counters: "iteration_counters (fst (narrate blocks)) = []"
  by (induction blocks) (auto split: sum.splits prod.splits)

lemma narrate_types:
  "list_all (\<lambda>e. ev_type e = TextEvent \<or> ev_type e = ThinkingEvent) (fst (narrate blocks))"
  by (induction blocks) (auto split: sum.splits prod.splits)


lemma narrate_readable: "list_all (\<lambda>b. \<not> nullish b) blocks \<Longrightarrow> snd (narrate blocks) = None"
proof (induction blocks)
  case Nil
  then show ?case by simp
next
  case (Cons b bs)
  then have nb: "\<not> nullish b" and rest: "snd (narrate bs) = None" by simp_all
  from nb obtain ty where ty: "js_get b ''type'' = Inr ty" using js_get_Inr by blast
  from nb obtain tx where tx: "js_get b ''text'' = Inr tx" using js_get_Inr by blast
  from nb obtain th where th: "js_get b ''thinking'' = Inr th" using js_get_Inr by blast
  show ?case using rest by (auto simp: ty tx th split: prod.splits)
qed


lemma filter_tool_use_readable:
  "list_all (\<lambda>b. \<not> nullish b) blocks \<Longrightarrow> filter_tool_use blocks = Inr (filter is_tool_use blocks)"
proof (induction blocks)
  case Nil
  then show ?case by simp
next
  case (Cons b bs)
  then have nb: "\<not> nullish b" and rest: "filter_tool_use bs = Inr (filter is_tool_use bs)"
    by simp_all
  from nb obtain ty where ty: "js_get b ''type'' = Inr ty" using js_get_Inr by blast
  have "is_tool_use b \<longleftrightarrow> ty = Str ''tool_use''" by (simp add: is_tool_use_def ty)
  then show ?case by (simp add: ty rest)
qed




lemma announceable_reads:
  assumes "announceable tu"
  obtains inp act name tid where "js_get tu ''input'' = Inr inp" "js_get inp ''action'' = Inr act"
    "js_to_string act = Inr name" "js_get tu ''id'' = Inr tid"
proof -
  from assms obtain inp where i: "js_get tu ''input'' = Inr inp"
    by (auto simp: announceable_def split: sum.splits)
  with assms obtain act where a: "js_get inp ''action'' = Inr act" "stringable act"
    by (auto simp: announceable_def split: sum.splits)
  from a(2) obtain name where n: "js_to_string act = Inr name" using stringable_name by blast
  from i have "\<not> nullish tu" by (rule js_get_Inr_nullish)
  then obtain tid where "js_get tu ''id'' = Inr tid" using js_get_Inr by blast
  with i a n that show thesis by blast
qed

lemma announceable_has_input: "announceable tu \<Longrightarrow> has_input tu"
  by (auto simp: announceable_def has_input_def dest: js_get_Inr_nullish split: sum.splits)

lemma run_tool_runnable:
  assumes "announceable tu" and "executor_tame E" and "observer_tame obs"
  shows "\<exists>r. fst (run_tool E obs tu s) = Inr r
           \<and> (observer_quiet obs \<longrightarrow> Inr (tool_use_id r) = js_get tu ''id'')"
proof -
  from assms(1) obtain inp act name tid where r: "js_get tu ''input'' = Inr inp"
      "js_get inp ''action'' = Inr act" "js_to_string act = Inr name" "js_get tu ''id'' = Inr tid"
    by (elim announceable_reads)
  let ?p = "set_prop (js_spread inp) ''tool_use_id'' tid"
  let ?h = "host (yield (action_event name act inp) s)"
  have "stringable act" by (simp add: stringable_def r(3))
  from exec_tame [OF assms(2,3) this, of ?p ?h]
  obtain x where x: "fst (executeComputerAction E act ?p obs ?h) = Inr x" by blast
  have "tool_use_id x = tid" if "observer_quiet obs"
    using exec_id [OF x] observer_quiet_after [OF that] by (simp add: own_prop_set_prop)
  with x show ?thesis
    by (auto simp: run_tool_def r Let_def split: prod.splits)
qed



lemma fetches_append: "fetches (xs @ ys) = fetches xs @ fetches ys"
  by (induction xs rule: fetches.induct) simp_all

lemma exec_trace:
  "\<exists>es. trace (snd (executeComputerAction E action params obs h)) = trace h @ es \<and> fetches es = []"
proof -
  have none: "\<exists>es. trace (snd (executeComputerAction E action p None h)) = trace h @ es
      \<and> fetches es = []" for p
    using switch_action_trace [of E action p h]
    by (auto simp: exec_without_observer split: prod.splits sum.splits)
  show ?thesis
  proof (cases obs)
    case None
    with none show ?thesis by simp
  next
    case (Some f)
    obtain x p where fp: "f action params = (x, p)" by (cases "f action params")
    show ?thesis
    proof (cases x)
      case None
      with fp have fp': "f action params = (None, p)" by simp
      from none [of p] obtain es where
        es: "trace (snd (executeComputerAction E action p None h)) = trace h @ es" "fetches es = []"
        by blast
      show ?thesis
        by (simp add: Some exec_observer_returns [where f = f and E = E and h = h, OF fp']
              new_effects_def es)
    next
      case (Some t)
      with fp have fp': "f action params = (Some t, p)" by simp
      show ?thesis
        by (simp add: \<open>obs = Some f\<close>
              exec_observer_throws [where f = f and E = E and h = h, OF fp'])
    qed
  qed
qed

lemma run_tool_frame:
  "messages (snd (run_tool E obs tu s)) = messages s
   \<and> (\<exists>evs. events (snd (run_tool E obs tu s)) = events s @ evs
          \<and> list_all (\<lambda>e. ev_type e = ActionEvent \<and> (\<exists>a i. ev_data e = ActionData a i)) evs)
   \<and> (\<exists>es. trace (host (snd (run_tool E obs tu s))) = trace (host s) @ es \<and> fetches es = [])"
proof (cases "js_get tu ''input''")
  case (Inl t)
  then show ?thesis by (simp add: run_tool_def)
next
  case inp: (Inr inp)
  show ?thesis
  proof (cases "js_get inp ''action''")
    case (Inl t)
    with inp show ?thesis by (simp add: run_tool_def)
  next
    case act: (Inr act)
    show ?thesis
    proof (cases "js_to_string act")
      case (Inl t)
      with inp act show ?thesis by (simp add: run_tool_def)
    next
      case nm: (Inr name)
      show ?thesis
      proof (cases "js_get tu ''id''")
        case (Inl t)
        with inp act nm show ?thesis by (simp add: run_tool_def yield_def action_event_def)
      next
        case (Inr tid)
        with inp act nm show ?thesis
          using exec_trace [of E act "set_prop (js_spread inp) ''tool_use_id'' tid" obs "host s"]
          by (auto simp: run_tool_def yield_def action_event_def split: prod.splits)
      qed
    qed
  qed
qed

lemma iteration_counters_none:
  "list_all (\<lambda>e. P e \<and> (\<exists>a i. ev_data e = ActionData a i)) evs \<Longrightarrow> iteration_counters evs = []"
  by (induction evs) auto

lemma extends_refl: "extends s s"
  by (simp add: extends_def)

lemma extends_trans: "extends s s' \<Longrightarrow> extends s' s'' \<Longrightarrow> extends s s''"
  by (auto simp: extends_def iteration_counters_append fetches_append)

lemma extends_push: "extends s (push m s)"
  by (simp add: extends_def push_def)

lemma extends_events:
  "iteration_counters evs = [] \<Longrightarrow> extends s (s\<lparr>events := events s @ evs\<rparr>)"
  by (simp add: extends_def)

lemma extends_yield: "ev_data e = NoData \<Longrightarrow> extends s (yield e s)"
  by (simp add: extends_def yield_def)

lemma run_tool_extends: "extends s (snd (run_tool E obs tu s))"
proof -
  from run_tool_frame [of E obs tu s] obtain evs es where
    e: "events (snd (run_tool E obs tu s)) = events s @ evs"
       "list_all (\<lambda>e. ev_type e = ActionEvent \<and> (\<exists>a i. ev_data e = ActionData a i)) evs"
    and t: "trace (host (snd (run_tool E obs tu s))) = trace (host s) @ es" "fetches es = []"
    by blast
  from e(2) have "iteration_counters evs = []" by (rule iteration_counters_none)
  with e(1) t show ?thesis by (auto simp: extends_def)
qed

lemma run_tool_messages: "messages (snd (run_tool E obs tu s)) = messages s"
  using run_tool_frame [of E obs tu s] by simp

lemma run_tool_events:
  "\<exists>evs. events (snd (run_tool E obs tu s)) = events s @ evs
     \<and> list_all (\<lambda>e. ev_type e = ActionEvent) evs"
  using run_tool_frame [of E obs tu s] by (auto simp: list_all_iff)

lemma run_tools_runnable:
  assumes "executor_tame E" and "observer_tame obs"
  shows "list_all announceable tus \<Longrightarrow>
   \<exists>rs. fst (run_tools E obs tus s) = Inr rs \<and> length rs = length tus
       \<and> (observer_quiet obs \<longrightarrow>
            map (\<lambda>r. Inr (tool_use_id r)) rs = map (\<lambda>tu. js_get tu ''id'') tus)"
proof (induction tus arbitrary: s)
  case Nil
  then show ?case by simp
next
  case (Cons tu tus)
  then have tu: "announceable tu" and rest: "list_all announceable tus" by simp_all
  obtain r s1 where r: "run_tool E obs tu s = (Inr r, s1)"
      "observer_quiet obs \<longrightarrow> Inr (tool_use_id r) = js_get tu ''id''"
    using run_tool_runnable [OF tu assms, of s] by (cases "run_tool E obs tu s") auto
  obtain rs s2 where rs: "run_tools E obs tus s1 = (Inr rs, s2)" "length rs = length tus"
      "observer_quiet obs \<longrightarrow>
         map (\<lambda>r. Inr (tool_use_id r)) rs = map (\<lambda>tu. js_get tu ''id'') tus"
    using Cons.IH [OF rest, of s1] by (cases "run_tools E obs tus s1") auto
  show ?case using r(2) rs(2,3) by (simp add: r(1) rs(1))
qed



lemma run_tools_extends: "extends s (snd (run_tools E obs tus s))"
proof (induction tus arbitrary: s)
  case Nil
  then show ?case by (simp add: extends_refl)
next
  case (Cons tu tus)
  obtain r s1 where r: "run_tool E obs tu s = (r, s1)" by (cases "run_tool E obs tu s")
  then have e1: "extends s s1" using run_tool_extends [of s E obs tu] by simp
  obtain rs s2 where rs: "run_tools E obs tus s1 = (rs, s2)" by (cases "run_tools E obs tus s1")
  then have e2: "extends s1 s2" using Cons.IH [of s1] by simp
  show ?case using e1 extends_trans [OF e1 e2]
    by (auto simp: r rs split: sum.splits)
qed

lemma run_tools_messages: "messages (snd (run_tools E obs tus s)) = messages s"
proof (induction tus arbitrary: s)
  case Nil
  then show ?case by simp
next
  case (Cons tu tus)
  obtain r s1 where r: "run_tool E obs tu s = (r, s1)" by (cases "run_tool E obs tu s")
  then have m1: "messages s1 = messages s" using run_tool_messages [of E obs tu s] by simp
  obtain rs s2 where rs: "run_tools E obs tus s1 = (rs, s2)" by (cases "run_tools E obs tus s1")
  then have m2: "messages s2 = messages s1" using Cons.IH [of s1] by simp
  show ?case using m1 m2 by (auto simp: r rs split: sum.splits)
qed

lemma run_tools_events:
  "\<exists>evs. events (snd (run_tools E obs tus s)) = events s @ evs
     \<and> list_all (\<lambda>e. ev_type e = ActionEvent) evs"
proof (induction tus arbitrary: s)
  case Nil
  then show ?case by simp
next
  case (Cons tu tus)
  obtain r s1 where r: "run_tool E obs tu s = (r, s1)" by (cases "run_tool E obs tu s")
  from run_tool_events [of E obs tu s] r obtain evs1 where
    e1: "events s1 = events s @ evs1" "list_all (\<lambda>e. ev_type e = ActionEvent) evs1"
    by auto
  obtain rs s2 where rs: "run_tools E obs tus s1 = (rs, s2)" by (cases "run_tools E obs tus s1")
  from Cons.IH [of s1] rs obtain evs2 where
    e2: "events s2 = events s1 @ evs2" "list_all (\<lambda>e. ev_type e = ActionEvent) evs2"
    by auto
  have "events s2 = events s @ (evs1 @ evs2)" "list_all (\<lambda>e. ev_type e = ActionEvent) (evs1 @ evs2)"
    using e1 e2 by simp_all
  with e1 show ?case
    by (cases r; cases rs) (auto simp: r rs simp del: list_all_append)
qed

lemma exec_always_fails:
  assumes "\<And>w cmd args. \<exists>t. fst (invoke E w cmd args) = Inl t"
    and "fst (executeComputerAction E action params obs h) = Inr r"
  shows "is_error r"
  using assms(2) switch_action_always_fails [of E action, OF assms(1)]
  by (auto simp: executeComputerAction_def try_action_def catch_clause_def error_result_def
           split: prod.splits sum.splits option.splits)

lemma run_tool_always_fails:
  assumes "\<And>w cmd args. \<exists>t. fst (invoke E w cmd args) = Inl t"
    and "fst (run_tool E obs tu s) = Inr r"
  shows "is_error r"
  using assms(2) exec_always_fails [of E, OF assms(1)]
  by (auto simp: run_tool_def Let_def split: sum.splits prod.splits) (metis fst_conv)

lemma run_tools_always_fails:
  assumes "\<And>w cmd args. \<exists>t. fst (invoke E w cmd args) = Inl t"
  shows "fst (run_tools E obs tus s) = Inr rs \<Longrightarrow> list_all is_error rs"
proof (induction tus arbitrary: s rs)
  case Nil
  then show ?case by simp
next
  case (Cons tu tus)
  obtain r s1 where r: "run_tool E obs tu s = (r, s1)" by (cases "run_tool E obs tu s")
  obtain rs' s2 where rs: "run_tools E obs tus s1 = (rs', s2)" by (cases "run_tools E obs tus s1")
  from Cons.prems r rs obtain r0 rs0 where eq: "r = Inr r0" "rs' = Inr rs0" "rs = r0 # rs0"
    by (auto split: sum.splits)
  have "is_error r0" using run_tool_always_fails [OF assms, of obs tu s r0] r eq by simp
  moreover have "list_all is_error rs0" using Cons.IH [of s1 rs0] rs eq by simp
  ultimately show ?case using eq by simp
qed

lemma reply_blocks_content: "reply_blocks data = Some blocks \<Longrightarrow> js_get data ''content'' = Inr (Arr blocks)"
  by (auto simp: reply_blocks_def split: sum.splits js.splits)

lemma process_reply_readable:
  assumes "reply_blocks data = Some blocks" and "list_all (\<lambda>b. \<not> nullish b) blocks"
  shows "process_reply E obs data s =
     (let s2 = (push \<lparr>role = Assistant, body = Reply (Arr blocks)\<rparr> s)
                 \<lparr>events := events s @ fst (narrate blocks)\<rparr>
      in if filter is_tool_use blocks = [] then
           (Inr (Some Completed),
            yield complete_event s2)
         else
           (case run_tools E obs (filter is_tool_use blocks) s2 of
              (Inl t, s3) \<Rightarrow> (Inl t, s3)
            | (Inr toolResults, s3) \<Rightarrow>
                (let s4 = push \<lparr>role = User, body = Results toolResults\<rparr> s3
                 in if end_turn data then
                      (Inr (Some Completed),
                       yield complete_event s4)
                    else (Inr None, s4))))"
proof -
  have c: "js_get data ''content'' = Inr (Arr blocks)"
    using assms(1) by (rule reply_blocks_content)
  then have "\<not> nullish data" by (rule js_get_Inr_nullish)
  then obtain sr where sr: "js_get data ''stop_reason'' = Inr sr" using js_get_Inr by blast
  obtain evs where n: "narrate blocks = (evs, None)"
    using narrate_readable [OF assms(2)] by (cases "narrate blocks") auto
  show ?thesis
    by (simp add: process_reply_def c n sr filter_tool_use_readable [OF assms(2)] Let_def
          end_turn_def push_def split: prod.splits sum.splits)
qed



lemma process_reply_extends: "extends s (snd (process_reply E obs data s))"
proof (cases "js_get data ''content''")
  case (Inl t)
  then show ?thesis by (simp add: process_reply_def extends_refl)
next
  case c: (Inr cont)
  let ?s1 = "push \<lparr>role = Assistant, body = Reply cont\<rparr> s"
  have e1: "extends s ?s1" by (rule extends_push)
  show ?thesis
  proof (cases "iterate cont")
    case (Inl t)
    with c e1 show ?thesis by (simp add: process_reply_def Let_def)
  next
    case it: (Inr blocks)
    obtain evs r where n: "narrate blocks = (evs, r)" by (cases "narrate blocks")
    let ?s2 = "?s1\<lparr>events := events ?s1 @ evs\<rparr>"
    have "iteration_counters evs = []" using narrate_counters [of blocks] n by simp
    then have "extends ?s1 ?s2" by (rule extends_events)
    with e1 have e2: "extends s ?s2" by (rule extends_trans)
    show ?thesis
    proof (cases r)
      case (Some t)
      with c it n e2 show ?thesis by (simp add: process_reply_def Let_def)
    next
      case None
      show ?thesis
      proof (cases "tool_uses cont")
        case (Inl t)
        with c it n None e2 show ?thesis by (simp add: process_reply_def Let_def)
      next
        case tu: (Inr tus)
        show ?thesis
        proof (cases "tus = []")
          case True
          let ?e = "complete_event"
          have "extends ?s2 (yield ?e ?s2)" by (rule extends_yield) (simp add: complete_event_def)
          with e2 have "extends s (yield ?e ?s2)" by (rule extends_trans)
          with c it n None tu True show ?thesis by (simp add: process_reply_def Let_def)
        next
          case False
          obtain x s3 where rt: "run_tools E obs tus ?s2 = (x, s3)"
            by (cases "run_tools E obs tus ?s2")
          have "extends ?s2 s3" using run_tools_extends [of ?s2 E obs tus] rt by simp
          with e2 have e3: "extends s s3" by (rule extends_trans)
          show ?thesis
          proof (cases x)
            case (Inl t)
            with c it n None tu False rt e3 show ?thesis
              by (simp add: process_reply_def Let_def)
          next
            case (Inr rs)
            let ?s4 = "push \<lparr>role = User, body = Results rs\<rparr> s3"
            let ?e = "complete_event"
            have "extends s3 ?s4" by (rule extends_push)
            with e3 have e4: "extends s ?s4" by (rule extends_trans)
            have "extends ?s4 (yield ?e ?s4)" by (rule extends_yield) (simp add: complete_event_def)
            with e4 have e5: "extends s (yield ?e ?s4)" by (rule extends_trans)
            from c it n None tu False rt Inr e4 e5 show ?thesis
              by (simp add: process_reply_def Let_def split: sum.splits)
          qed
        qed
      qed
    qed
  qed
qed

section \<open>Facts about the loop\<close>

lemma loop_body_reply:
  assumes "tauriFetch E (world (host s)) (request_of config apiKey sp tools (messages s)) = (Inr resp, w')"
    and "ok resp" and "json_body resp = Inr data"
  shows "loop_body E config apiKey sp obs tools i s =
     process_reply E obs data
       ((yield (iteration_event i config) s)
        \<lparr>host := \<lparr>world = w',
                  trace = trace (host s) @ [Fetch (request_of config apiKey sp tools (messages s))]\<rparr>\<rparr>)"
  using assms by (simp add: loop_body_def Let_def call_fetch_def yield_def)

lemma loop_body_frame:
  "iteration_counters (events (snd (loop_body E config apiKey sp obs tools i s)))
     = iteration_counters (events s) @ [i]
   \<and> (\<exists>es. trace (host (snd (loop_body E config apiKey sp obs tools i s)))
            = trace (host s) @ Fetch (request_of config apiKey sp tools (messages s)) # es
          \<and> fetches es = [])"
proof -
  let ?req = "request_of config apiKey sp tools (messages s)"
  let ?s1 = "yield (iteration_event i config) s"
  obtain r w' where f: "tauriFetch E (world (host s)) ?req = (r, w')"
    by (cases "tauriFetch E (world (host s)) ?req")
  let ?s2 = "?s1\<lparr>host := \<lparr>world = w', trace = trace (host s) @ [Fetch ?req]\<rparr>\<rparr>"
  have base: "iteration_counters (events ?s2) = iteration_counters (events s) @ [i]"
    "trace (host ?s2) = trace (host s) @ [Fetch ?req]"
    by (simp_all add: yield_def iteration_counters_append iteration_event_def)
  have ext: "extends ?s2 s' \<Longrightarrow>
      iteration_counters (events s') = iteration_counters (events s) @ [i]
      \<and> (\<exists>es. trace (host s') = trace (host s) @ Fetch ?req # es \<and> fetches es = [])" for s'
    using base by (auto simp: extends_def iteration_counters_append)
  have "extends ?s2 (snd (loop_body E config apiKey sp obs tools i s))"
  proof (cases r)
    case (Inl t)
    with f show ?thesis
      by (simp add: loop_body_def Let_def call_fetch_def yield_def extends_refl)
  next
    case (Inr resp)
    show ?thesis
    proof (cases "ok resp")
      case False
      have "extends ?s2 (yield (api_error_event resp) ?s2)"
        by (rule extends_yield) (simp add: api_error_event_def)
      with f Inr False show ?thesis
        by (simp add: loop_body_def Let_def call_fetch_def yield_def)
    next
      case True
      show ?thesis
      proof (cases "json_body resp")
        case (Inl t)
        with f Inr True show ?thesis
          by (simp add: loop_body_def Let_def call_fetch_def yield_def extends_refl)
      next
        case data: (Inr data)
        show ?thesis
          using process_reply_extends [of ?s2 E obs data] f Inr True data
          by (simp add: loop_body_reply)
      qed
    qed
  qed
  then show ?thesis by (rule ext)
qed

lemma while_loop_stop: "\<not> i < maxIterations config \<Longrightarrow>
   while_loop E config apiKey sp obs tools i s = (Inr None, s)"
  by (simp add: while_loop.simps)

lemma while_loop_step:
  "i < maxIterations config \<Longrightarrow>
   while_loop E config apiKey sp obs tools i s =
     (case loop_body E config apiKey sp obs tools (i + 1) s of
        (Inr None, s') \<Rightarrow> while_loop E config apiKey sp obs tools (i + 1) s'
      | (r, s') \<Rightarrow> (r, s'))"
  by (subst while_loop.simps) simp

lemma while_loop_counters:
  "\<exists>k. i \<le> k \<and> (k \<le> maxIterations config \<or> k = i)
     \<and> iteration_counters (events (snd (while_loop E config apiKey sp obs tools i s)))
         = iteration_counters (events s) @ [i + 1..k]"
proof (induction "nat (maxIterations config - i)" arbitrary: i s)
  case 0
  then have "\<not> i < maxIterations config" by simp
  then show ?case by (auto simp: while_loop_stop intro!: exI [of _ i])
next
  case (Suc n)
  then have lt: "i < maxIterations config" by simp
  obtain r s' where b: "loop_body E config apiKey sp obs tools (i + 1) s = (r, s')"
    by (cases "loop_body E config apiKey sp obs tools (i + 1) s")
  have c: "iteration_counters (events s') = iteration_counters (events s) @ [i + 1]"
    using loop_body_frame [of E config apiKey sp obs tools "i + 1" s] b by simp
  show ?case
  proof (cases "r = Inr None")
    case True
    from Suc(2) have "n = nat (maxIterations config - (i + 1))" by simp
    from Suc(1) [OF this, of s'] obtain k where
      k: "i + 1 \<le> k" "k \<le> maxIterations config \<or> k = i + 1"
         "iteration_counters (events (snd (while_loop E config apiKey sp obs tools (i + 1) s')))
           = iteration_counters (events s') @ [i + 1 + 1..k]"
      by blast
    have "[i + 1..k] = (i + 1) # [i + 1 + 1..k]" using k(1) by (simp add: upto_rec1)
    with k c lt True b show ?thesis
      by (intro exI [of _ k]) (auto simp: while_loop_step)
  next
    case False
    with b lt c show ?thesis
      by (intro exI [of _ "i + 1"]) (auto simp: while_loop_step split: sum.splits option.splits)
  qed
qed

lemma while_loop_trace:
  "\<exists>es. trace (host (snd (while_loop E config apiKey sp obs tools i s))) = trace (host s) @ es"
proof (induction "nat (maxIterations config - i)" arbitrary: i s)
  case 0
  then have "\<not> i < maxIterations config" by simp
  then show ?case by (simp add: while_loop_stop)
next
  case (Suc n)
  then have lt: "i < maxIterations config" by simp
  obtain r s' where b: "loop_body E config apiKey sp obs tools (i + 1) s = (r, s')"
    by (cases "loop_body E config apiKey sp obs tools (i + 1) s")
  obtain es where es: "trace (host s') = trace (host s) @ es"
    using loop_body_frame [of E config apiKey sp obs tools "i + 1" s] b by auto
  show ?case
  proof (cases "r = Inr None")
    case True
    from Suc(2) have "n = nat (maxIterations config - (i + 1))" by simp
    from Suc(1) [OF this, of s'] es True b lt show ?thesis
      by (auto simp: while_loop_step)
  next
    case False
    with b lt es show ?thesis
      by (auto simp: while_loop_step split: sum.splits option.splits)
  qed
qed

lemma readable_reply_blocks:
  assumes "readable_reply data"
  obtains blocks where "reply_blocks data = Some blocks" "list_all (\<lambda>b. \<not> nullish b) blocks"
    "list_all has_input (filter is_tool_use blocks)" "reply_tool_uses data = filter is_tool_use blocks"
  using assms by (auto simp: readable_reply_def reply_tool_uses_def split: option.splits)

lemma messages_narrated_after_fetch:
  "messages (narrated blocks (after_fetch config apiKey sp tools i w' s))
     = messages s @ [\<lparr>role = Assistant, body = Reply (Arr blocks)\<rparr>]"
  by (simp add: narrated_def after_fetch_def push_def yield_def)

lemma events_narrated_after_fetch:
  "events (narrated blocks (after_fetch config apiKey sp tools i w' s))
     = events s @ iteration_event i config # fst (narrate blocks)"
  by (simp add: narrated_def after_fetch_def push_def yield_def)

lemma loop_body_round:
  assumes f: "tauriFetch E (world (host s)) (request_of config apiKey sp tools (messages s)) = (Inr resp, w')"
    and ok: "ok resp" and js: "json_body resp = Inr data"
    and rd: "readable_reply data" and rb: "reply_blocks data = Some blocks"
  shows "reply_tool_uses data = [] \<Longrightarrow>
           loop_body E config apiKey sp obs tools i s =
             (Inr (Some Completed),
              yield complete_event (narrated blocks (after_fetch config apiKey sp tools i w' s)))"
    and "reply_tool_uses data \<noteq> [] \<Longrightarrow> list_all announceable (reply_tool_uses data) \<Longrightarrow>
         executor_tame E \<Longrightarrow> observer_tame obs \<Longrightarrow>
           \<exists>rs s3. run_tools E obs (reply_tool_uses data)
                      (narrated blocks (after_fetch config apiKey sp tools i w' s)) = (Inr rs, s3)
             \<and> length rs = length (reply_tool_uses data)
             \<and> (observer_quiet obs \<longrightarrow>
                  map (\<lambda>r. Inr (tool_use_id r)) rs
                    = map (\<lambda>tu. js_get tu ''id'') (reply_tool_uses data))
             \<and> loop_body E config apiKey sp obs tools i s =
                 (if end_turn data
                  then (Inr (Some Completed),
                        yield complete_event (push \<lparr>role = User, body = Results rs\<rparr> s3))
                  else (Inr None, push \<lparr>role = User, body = Results rs\<rparr> s3))"
proof -
  from rd rb have all: "list_all (\<lambda>b. \<not> nullish b) blocks"
    and tus: "reply_tool_uses data = filter is_tool_use blocks"
    by (auto elim!: readable_reply_blocks)
  let ?s0 = "after_fetch config apiKey sp tools i w' s"
  have lb: "loop_body E config apiKey sp obs tools i s = process_reply E obs data ?s0"
    unfolding after_fetch_def using f ok js by (rule loop_body_reply)
  note pr = process_reply_readable [OF rb all, of E obs ?s0, folded narrated_def]
  show "reply_tool_uses data = [] \<Longrightarrow>
           loop_body E config apiKey sp obs tools i s =
             (Inr (Some Completed), yield complete_event (narrated blocks ?s0))"
    by (simp add: lb pr tus Let_def)
  show "\<exists>rs s3. run_tools E obs (reply_tool_uses data) (narrated blocks ?s0) = (Inr rs, s3)
             \<and> length rs = length (reply_tool_uses data)
             \<and> (observer_quiet obs \<longrightarrow>
                  map (\<lambda>r. Inr (tool_use_id r)) rs
                    = map (\<lambda>tu. js_get tu ''id'') (reply_tool_uses data))
             \<and> loop_body E config apiKey sp obs tools i s =
                 (if end_turn data
                  then (Inr (Some Completed),
                        yield complete_event (push \<lparr>role = User, body = Results rs\<rparr> s3))
                  else (Inr None, push \<lparr>role = User, body = Results rs\<rparr> s3))"
    if ne: "reply_tool_uses data \<noteq> []" and an: "list_all announceable (reply_tool_uses data)"
      and et: "executor_tame E" and ot: "observer_tame obs"
  proof -
    from run_tools_runnable [OF et ot an, of "narrated blocks ?s0"] obtain rs where
      rs: "fst (run_tools E obs (reply_tool_uses data) (narrated blocks ?s0)) = Inr rs"
          "length rs = length (reply_tool_uses data)"
          "observer_quiet obs \<longrightarrow>
             map (\<lambda>r. Inr (tool_use_id r)) rs = map (\<lambda>tu. js_get tu ''id'') (reply_tool_uses data)"
      by blast
    then obtain s3 where s3:
      "run_tools E obs (reply_tool_uses data) (narrated blocks ?s0) = (Inr rs, s3)"
      by (cases "run_tools E obs (reply_tool_uses data) (narrated blocks ?s0)") simp
    from s3 have s3': "run_tools E obs (filter is_tool_use blocks) (narrated blocks ?s0) = (Inr rs, s3)"
      by (simp add: tus)
    from ne have ne': "filter is_tool_use blocks \<noteq> []" by (simp add: tus)
    have "loop_body E config apiKey sp obs tools i s =
                 (if end_turn data
                  then (Inr (Some Completed),
                        yield complete_event (push \<lparr>role = User, body = Results rs\<rparr> s3))
                  else (Inr None, push \<lparr>role = User, body = Results rs\<rparr> s3))"
      by (simp add: lb pr ne' s3' Let_def)
    with rs(2,3) s3 show ?thesis by blast
  qed
qed

lemma runnable_round:
  assumes f: "tauriFetch E (world (host s)) (request_of config apiKey sp tools (messages s)) = (Inr resp, w')"
    and ok: "ok resp" and js: "json_body resp = Inr data"
    and rn: "runnable_reply data" and ne: "reply_tool_uses data \<noteq> []"
    and et: "executor_tame E" and ot: "observer_tame obs"
  shows "\<exists>blocks rs s3 evs.
           reply_blocks data = Some blocks
         \<and> length rs = length (reply_tool_uses data)
         \<and> (observer_quiet obs \<longrightarrow>
              map (\<lambda>r. Inr (tool_use_id r)) rs = map (\<lambda>tu. js_get tu ''id'') (reply_tool_uses data))
         \<and> messages s3 = messages s @ [\<lparr>role = Assistant, body = Reply (Arr blocks)\<rparr>]
         \<and> events s3 = events s @ iteration_event i config # evs
         \<and> list_all (\<lambda>e. ev_type e \<noteq> CompleteEvent) evs
         \<and> ((\<forall>w cmd args. \<exists>failure. fst (invoke E w cmd args) = Inl failure)
              \<longrightarrow> list_all is_error rs)
         \<and> loop_body E config apiKey sp obs tools i s =
             (if end_turn data
              then (Inr (Some Completed),
                    yield complete_event (push \<lparr>role = User, body = Results rs\<rparr> s3))
              else (Inr None, push \<lparr>role = User, body = Results rs\<rparr> s3))"
proof -
  from rn have rd: "readable_reply data" and an: "list_all announceable (reply_tool_uses data)"
    by (simp_all add: runnable_reply_def)
  from rd obtain blocks where rb: "reply_blocks data = Some blocks"
    by (elim readable_reply_blocks)
  let ?s0 = "narrated blocks (after_fetch config apiKey sp tools i w' s)"
  from loop_body_round(2) [OF f ok js rd rb ne an et ot, of i]
  obtain rs s3 where
    rt: "run_tools E obs (reply_tool_uses data) ?s0 = (Inr rs, s3)"
    and len: "length rs = length (reply_tool_uses data)"
    and ids: "observer_quiet obs \<longrightarrow>
                map (\<lambda>r. Inr (tool_use_id r)) rs = map (\<lambda>tu. js_get tu ''id'') (reply_tool_uses data)"
    and lb: "loop_body E config apiKey sp obs tools i s =
                 (if end_turn data
                  then (Inr (Some Completed),
                        yield complete_event (push \<lparr>role = User, body = Results rs\<rparr> s3))
                  else (Inr None, push \<lparr>role = User, body = Results rs\<rparr> s3))"
    by blast
  have m3: "messages s3 = messages s @ [\<lparr>role = Assistant, body = Reply (Arr blocks)\<rparr>]"
    using run_tools_messages [of E obs "reply_tool_uses data" ?s0] rt
    by (simp add: messages_narrated_after_fetch)
  from run_tools_events [of E obs "reply_tool_uses data" ?s0] rt obtain evs where
    evs: "events s3 = events ?s0 @ evs" "list_all (\<lambda>e. ev_type e = ActionEvent) evs"
    by auto
  have e3: "events s3 = events s @ iteration_event i config # (fst (narrate blocks) @ evs)"
    using evs(1) by (simp add: events_narrated_after_fetch)
  have ty: "list_all (\<lambda>e. ev_type e \<noteq> CompleteEvent) (fst (narrate blocks) @ evs)"
    using evs(2) narrate_types [of blocks] by (auto simp: list_all_iff)
  have err: "list_all is_error rs"
    if "\<forall>w cmd args. \<exists>failure. fst (invoke E w cmd args) = Inl failure"
    using run_tools_always_fails [of E obs "reply_tool_uses data" ?s0 rs] that rt
    by simp
  from rb len ids m3 e3 ty err lb show ?thesis by blast
qed

lemma finish_returned: "finish config (Inr (Some out), s) = (out, s)"
  by (simp add: finish_def)

lemma last_events_yield: "last (events (yield e s)) = e"
  by (simp add: yield_def)

lemma no_tools_no_invocations:
  "invocations (new_effects (host s)
     (host (yield e (narrated blocks (after_fetch config apiKey sp tools i w' s))))) = []"
  by (simp add: yield_def narrated_def after_fetch_def push_def new_effects_def)

lemma obliging_fetch:
  "tauriFetch (obliging_env data) w req
     = (Inr \<lparr>ok = True, status = 200, text_body = [], json_body = Inr data\<rparr>, ())"
  by (simp add: obliging_env_def replying_def)





lemma finish_counters:
  "iteration_counters (events (snd (finish config r))) = iteration_counters (events (snd r))"
  by (cases r)
     (auto simp: finish_def yield_def iteration_counters_append max_iterations_event_def
        caught_event_def split: sum.splits option.splits)

lemma while_loop_always_tools:
  assumes H: "\<And>w req. \<exists>response w' data. tauriFetch E w req = (Inr response, w') \<and> ok response
      \<and> json_body response = Inr data \<and> runnable_reply data \<and> reply_tool_uses data \<noteq> []
      \<and> \<not> end_turn data"
    and et: "executor_tame E" and ot: "observer_tame obs"
  shows "fst (while_loop E config apiKey sp obs tools i s) = Inr None
       \<and> iteration_counters (events (snd (while_loop E config apiKey sp obs tools i s)))
           = iteration_counters (events s) @ [i + 1..maxIterations config]
       \<and> length (fetches (trace (host (snd (while_loop E config apiKey sp obs tools i s)))))
           = length (fetches (trace (host s))) + nat (maxIterations config - i)"
proof (induction "nat (maxIterations config - i)" arbitrary: i s)
  case 0
  then have "\<not> i < maxIterations config" by simp
  then show ?case by (simp add: while_loop_stop)
next
  case (Suc n)
  then have lt: "i < maxIterations config" by simp
  from H [of "world (host s)" "request_of config apiKey sp tools (messages s)"]
  obtain response w' data where
    f: "tauriFetch E (world (host s)) (request_of config apiKey sp tools (messages s)) = (Inr response, w')"
    and ok: "ok response" and js: "json_body response = Inr data" and rn: "runnable_reply data"
    and ne: "reply_tool_uses data \<noteq> []" and nt: "\<not> end_turn data"
    by blast
  from runnable_round [OF f ok js rn ne et ot, of "i + 1"] nt
  obtain s' where lb: "loop_body E config apiKey sp obs tools (i + 1) s = (Inr None, s')"
    by auto
  from loop_body_frame [of E config apiKey sp obs tools "i + 1" s] lb
  obtain es where c: "iteration_counters (events s') = iteration_counters (events s) @ [i + 1]"
    and tr: "trace (host s') = trace (host s) @ Fetch (request_of config apiKey sp tools (messages s)) # es"
            "fetches es = []"
    by auto
  have w: "while_loop E config apiKey sp obs tools i s = while_loop E config apiKey sp obs tools (i + 1) s'"
    using lt by (simp add: while_loop_step lb)
  from Suc(2) have n: "n = nat (maxIterations config - (i + 1))" by simp
  note IH = Suc(1) [OF n, of s']
  have up: "[i + 1..maxIterations config] = (i + 1) # [i + 1 + 1..maxIterations config]"
    using lt by (simp add: upto_rec1)
  have fl: "length (fetches (trace (host s'))) = length (fetches (trace (host s))) + 1"
    using tr by (simp add: fetches_append)
  have nn: "nat (maxIterations config - i) = 1 + nat (maxIterations config - (i + 1))"
    using lt by simp
  show ?case
    using IH by (simp only: w c up fl nn) simp
qed

lemma while_loop_first_fetch:
  assumes "i < maxIterations config"
  shows "\<exists>es. trace (host (snd (while_loop E config apiKey sp obs tools i s)))
           = trace (host s) @ Fetch (request_of config apiKey sp tools (messages s)) # es"
proof -
  obtain r s' where lb: "loop_body E config apiKey sp obs tools (i + 1) s = (r, s')"
    by (cases "loop_body E config apiKey sp obs tools (i + 1) s")
  from loop_body_frame [of E config apiKey sp obs tools "i + 1" s] lb
  obtain es where tr: "trace (host s') = trace (host s) @ Fetch (request_of config apiKey sp tools (messages s)) # es"
    by auto
  show ?thesis
  proof (cases "r = Inr None")
    case True
    from while_loop_trace [of E config apiKey sp obs tools "i + 1" s'] obtain es' where
      "trace (host (snd (while_loop E config apiKey sp obs tools (i + 1) s'))) = trace (host s') @ es'"
      by blast
    with assms True lb tr show ?thesis by (simp add: while_loop_step)
  next
    case False
    with assms lb tr show ?thesis
      by (auto simp: while_loop_step split: sum.splits option.splits)
  qed
qed

lemma executor_tame_obliging: "executor_tame (obliging_env data)"
  by (simp add: executor_tame_def obliging_env_def)

lemma executor_tame_refusing: "executor_tame (refusing_env data)"
  by (simp add: executor_tame_def refusing_env_def describable_def)

lemma observer_tame_None: "observer_tame None"
  by (simp add: observer_tame_def)


lemma click_reply_facts:
  "runnable_reply click_reply" "reply_tool_uses click_reply \<noteq> []" "\<not> end_turn click_reply"
  by (simp_all add: runnable_reply_def readable_reply_def reply_tool_uses_def reply_blocks_def
        click_reply_def end_turn_def own_prop_def nullish_def is_tool_use_def has_input_def
        announceable_def stringable_def)

section \<open>Properties of the dispatcher\<close>

text \<open>
  C7. For an action name outside the supported set (\<^verbatim>\<open>screenshot\<close>, \<^verbatim>\<open>mouse_move\<close>,
  \<^verbatim>\<open>left_click\<close>, \<^verbatim>\<open>right_click\<close>, \<^verbatim>\<open>middle_click\<close>, \<^verbatim>\<open>double_click\<close>,
  \<^verbatim>\<open>left_click_drag\<close>, \<^verbatim>\<open>scroll\<close>, \<^verbatim>\<open>type\<close>, \<^verbatim>\<open>key\<close>) the dispatcher returns the
  result with \<^verbatim>\<open>is_error\<close> set and the content \<^verbatim>\<open>Unsupported action: <name>\<close>; it returns
  a value (nothing is raised), sends nothing to the Action Executor and leaves the world
  as it was. The observer, where there is one, is taken to return; the \<^verbatim>\<open>tool_use_id\<close> of
  the result is the one the parameters hold after its call, which is the one they held before
  where there is no observer or the observer left it alone.
\<close>

theorem unsupported_action_error_result:
  assumes "name \<notin> set supported_actions"
    and "observer_returns onActionExecuted (Str name) params"
  shows "fst (executeComputerAction E (Str name) params onActionExecuted h) =
           Inr \<lparr>tool_use_id = own_prop (params_after onActionExecuted (Str name) params) ''tool_use_id'',
                content = TextContent (''Unsupported action: '' @ name), is_error = True\<rparr>
         \<and> invocations (new_effects h (snd (executeComputerAction E (Str name) params onActionExecuted h))) = []
         \<and> world (snd (executeComputerAction E (Str name) params onActionExecuted h)) = world h"
proof -
  from assms(1) have sw: "switch_action E (Str name) p h' =
      (Inr (error_result p (''Unsupported action: '' @ name)), h')" for h' :: "'a host" and p
    by (simp add: supported_actions_def switch_action_def)
  have none: "executeComputerAction E (Str name) p None h =
      (Inr (error_result p (''Unsupported action: '' @ name)), h)" for p
    by (simp add: exec_without_observer sw)
  show ?thesis
  proof (cases onActionExecuted)
    case None
    then show ?thesis by (simp add: none params_after_def error_result_def new_effects_def)
  next
    case (Some f)
    with assms(2) have "fst (f (Str name) params) = None" by (simp add: observer_returns_def)
    then obtain p where fp: "f (Str name) params = (None, p)"
      by (cases "f (Str name) params") simp
    show ?thesis
      by (simp add: Some exec_observer_returns [where f = f and E = E and h = h, OF fp] none
            params_after_def fp error_result_def new_effects_def)
  qed
qed

theorem unsupported_action_error_result_witness:
  "''fly'' \<notin> set supported_actions
   \<and> observer_returns None (Str ''fly'') fly_params
   \<and> fst (executeComputerAction (obliging_env Null) (Str ''fly'') fly_params None idle) =
       Inr \<lparr>tool_use_id = Str ''toolu_1'', content = TextContent ''Unsupported action: fly'',
            is_error = True\<rparr>
   \<and> invocations (new_effects idle
        (snd (executeComputerAction (obliging_env Null) (Str ''fly'') fly_params None idle))) = []
   \<and> observer_returns (Some rewriting_observer) (Str ''fly'') fly_params
   \<and> fst (executeComputerAction (obliging_env Null) (Str ''fly'') fly_params
            (Some rewriting_observer) idle) =
       Inr \<lparr>tool_use_id = Str ''hijacked'', content = TextContent ''Unsupported action: fly'',
            is_error = True\<rparr>"
proof -
  have a: "''fly'' \<notin> set supported_actions" by (simp add: supported_actions_def)
  have b: "observer_returns None (Str ''fly'') fly_params" by (simp add: observer_returns_def)
  have c: "observer_returns (Some rewriting_observer) (Str ''fly'') fly_params"
    by (simp add: observer_returns_def rewriting_observer_def)
  show ?thesis
    using a b c unsupported_action_error_result [OF a b, of "obliging_env Null" idle]
      unsupported_action_error_result [OF a c, of "obliging_env Null" idle]
    by (simp add: fly_params_def own_prop_def params_after_def rewriting_observer_def)
qed

text \<open>
  C8. A scroll with the integer \<^verbatim>\<open>scroll_amount\<close> \<open>a\<close> sends exactly one command to the
  Action Executor, \<^verbatim>\<open>computer_mouse_scroll\<close>, whose vertical delta \<^verbatim>\<open>scrollY\<close> is \<open>a\<close>
  for the direction \<^verbatim>\<open>down\<close> and \<open>- a\<close> for the direction \<^verbatim>\<open>up\<close>. The observer, where
  there is one, is taken to return and to leave the parameters as they were.
\<close>

theorem scroll_vertical_delta:
  assumes "own_prop params ''scroll_amount'' = Num a"
    and "observer_leaves onActionExecuted (Str ''scroll'') params"
  shows "(own_prop params ''scroll_direction'' = Str ''down'' \<longrightarrow>
            map (\<lambda>(cmd, args). (cmd, own_prop args ''scrollY''))
              (invocations (new_effects h
                 (snd (executeComputerAction E (Str ''scroll'') params onActionExecuted h))))
            = [(''computer_mouse_scroll'', Num a)])
       \<and> (own_prop params ''scroll_direction'' = Str ''up'' \<longrightarrow>
            map (\<lambda>(cmd, args). (cmd, own_prop args ''scrollY''))
              (invocations (new_effects h
                 (snd (executeComputerAction E (Str ''scroll'') params onActionExecuted h))))
            = [(''computer_mouse_scroll'', Num (- a))])"
proof -
  have sy: "scrollY_of params
      = Inr (if own_prop params ''scroll_direction'' = Str ''down'' then Num a else Num (- a))"
    by (simp add: scrollY_of_def assms(1) js_neg_def)
  have sw: "switch_action E (Str ''scroll'') params h =
     invoke_text E ''computer_mouse_scroll''
       [(''x'', js_or (js_opt_index (own_prop params ''coordinate'') 0) (Num 0)),
        (''y'', js_or (js_opt_index (own_prop params ''coordinate'') 1) (Num 0)),
        (''scrollX'', Num 0),
        (''scrollY'', if own_prop params ''scroll_direction'' = Str ''down'' then Num a else Num (- a))]
       params h"
    by (simp add: switch_action_def sy)
  have none: "map (\<lambda>(cmd, args). (cmd, own_prop args ''scrollY''))
              (invocations (new_effects h
                 (snd (executeComputerAction E (Str ''scroll'') params None h))))
      = [(''computer_mouse_scroll'',
          if own_prop params ''scroll_direction'' = Str ''down'' then Num a else Num (- a))]"
    by (auto simp: exec_without_observer sw invoke_text_cases new_effects_def own_prop_def
             split: prod.splits sum.splits)
  from exec_observer_leaves [OF assms(2), of E h]
  have "invocations (new_effects h
           (snd (executeComputerAction E (Str ''scroll'') params onActionExecuted h)))
      = invocations (new_effects h (snd (executeComputerAction E (Str ''scroll'') params None h)))"
    by simp
  with none show ?thesis by simp
qed

theorem scroll_vertical_delta_witness:
  "own_prop (scroll_params ''down'') ''scroll_amount'' = Num 5
   \<and> own_prop (scroll_params ''down'') ''scroll_direction'' = Str ''down''
   \<and> observer_leaves None (Str ''scroll'') (scroll_params ''down'')
   \<and> map (\<lambda>(cmd, args). (cmd, own_prop args ''scrollY''))
     (invocations (new_effects idle
        (snd (executeComputerAction (obliging_env Null) (Str ''scroll'') (scroll_params ''down'') None idle))))
     = [(''computer_mouse_scroll'', Num 5)]
   \<and> own_prop (scroll_params ''up'') ''scroll_amount'' = Num 5
   \<and> own_prop (scroll_params ''up'') ''scroll_direction'' = Str ''up''
   \<and> map (\<lambda>(cmd, args). (cmd, own_prop args ''scrollY''))
     (invocations (new_effects idle
        (snd (executeComputerAction (obliging_env Null) (Str ''scroll'') (scroll_params ''up'') None idle))))
     = [(''computer_mouse_scroll'', Num (- 5))]"
  using scroll_vertical_delta [of "scroll_params ''down''" 5 None idle "obliging_env Null"]
        scroll_vertical_delta [of "scroll_params ''up''" 5 None idle "obliging_env Null"]
  by (simp add: scroll_params_def own_prop_def observer_leaves_def)




text \<open>
  C10. A scroll whose parameters have no \<^verbatim>\<open>coordinate\<close> does not fail on that account:
  where the vertical delta of line 370 can be computed and the observer, if there is one,
  returns and leaves the parameters as they were, one \<^verbatim>\<open>computer_mouse_scroll\<close> is sent
  with \<^verbatim>\<open>x\<close> and \<^verbatim>\<open>y\<close> both 0, and the result is the executor's answer (an error result
  only where the executor itself fails). In every scroll dispatch, whatever the parameters
  and the observer, each command sent is a scroll with the horizontal delta \<^verbatim>\<open>scrollX\<close> 0.
\<close>

theorem scroll_without_coordinate:
  "(map_of params ''coordinate'' = None \<and> scrollY_of params = Inr scrollY
      \<and> observer_leaves onActionExecuted (Str ''scroll'') params \<longrightarrow>
      (\<exists>args. invocations (new_effects h
                 (snd (executeComputerAction E (Str ''scroll'') params onActionExecuted h)))
               = [(''computer_mouse_scroll'', args)]
             \<and> own_prop args ''x'' = Num 0 \<and> own_prop args ''y'' = Num 0
             \<and> fst (executeComputerAction E (Str ''scroll'') params onActionExecuted h)
               = (case fst (invoke E (world h) ''computer_mouse_scroll'' args) of
                    Inl t \<Rightarrow>
                      (case error_message t of
                         Inl e \<Rightarrow> Inl e
                       | Inr msg \<Rightarrow>
                           Inr \<lparr>tool_use_id = own_prop params ''tool_use_id'',
                                content = TextContent (''Error: '' @ msg), is_error = True\<rparr>)
                  | Inr r \<Rightarrow>
                      Inr \<lparr>tool_use_id = own_prop params ''tool_use_id'',
                           content = TextContent r, is_error = False\<rparr>)))
   \<and> list_all (\<lambda>(cmd, args). cmd = ''computer_mouse_scroll'' \<and> own_prop args ''scrollX'' = Num 0)
       (invocations (new_effects h
          (snd (executeComputerAction E (Str ''scroll'') params onActionExecuted h))))"
proof -
  have sw: "switch_action E (Str ''scroll'') p h' =
     (case scrollY_of p of
        Inl t \<Rightarrow> (Inl t, h')
      | Inr sy \<Rightarrow>
          invoke_text E ''computer_mouse_scroll''
            [(''x'', js_or (js_opt_index (own_prop p ''coordinate'') 0) (Num 0)),
             (''y'', js_or (js_opt_index (own_prop p ''coordinate'') 1) (Num 0)),
             (''scrollX'', Num 0), (''scrollY'', sy)] p h')" for h' :: "'a host" and p
    by (simp add: switch_action_def)
  have all_none: "list_all (\<lambda>(cmd, args). cmd = ''computer_mouse_scroll'' \<and> own_prop args ''scrollX'' = Num 0)
       (invocations (new_effects h (snd (executeComputerAction E (Str ''scroll'') p None h))))" for p
    by (auto simp: exec_without_observer sw invoke_text_cases new_effects_def own_prop_def
             split: prod.splits sum.splits)
  have all: "list_all (\<lambda>(cmd, args). cmd = ''computer_mouse_scroll'' \<and> own_prop args ''scrollX'' = Num 0)
       (invocations (new_effects h
          (snd (executeComputerAction E (Str ''scroll'') params onActionExecuted h))))"
  proof (cases onActionExecuted)
    case None
    with all_none show ?thesis by simp
  next
    case (Some f)
    obtain x p where fp: "f (Str ''scroll'') params = (x, p)" by (cases "f (Str ''scroll'') params")
    show ?thesis
    proof (cases x)
      case None
      with fp have fp': "f (Str ''scroll'') params = (None, p)" by simp
      show ?thesis
        using all_none [of p]
        by (simp add: Some exec_observer_returns [where f = f and E = E and h = h, OF fp']
              new_effects_def)
    next
      case (Some t)
      with fp have fp': "f (Str ''scroll'') params = (Some t, p)" by simp
      show ?thesis
        by (simp add: \<open>onActionExecuted = Some f\<close>
              exec_observer_throws [where f = f and E = E and h = h, OF fp'] new_effects_def)
    qed
  qed
  have omitted: "\<exists>args. invocations (new_effects h
                 (snd (executeComputerAction E (Str ''scroll'') params onActionExecuted h)))
               = [(''computer_mouse_scroll'', args)]
             \<and> own_prop args ''x'' = Num 0 \<and> own_prop args ''y'' = Num 0
             \<and> fst (executeComputerAction E (Str ''scroll'') params onActionExecuted h)
               = (case fst (invoke E (world h) ''computer_mouse_scroll'' args) of
                    Inl t \<Rightarrow>
                      (case error_message t of
                         Inl e \<Rightarrow> Inl e
                       | Inr msg \<Rightarrow>
                           Inr \<lparr>tool_use_id = own_prop params ''tool_use_id'',
                                content = TextContent (''Error: '' @ msg), is_error = True\<rparr>)
                  | Inr r \<Rightarrow>
                      Inr \<lparr>tool_use_id = own_prop params ''tool_use_id'',
                           content = TextContent r, is_error = False\<rparr>)"
    if co: "map_of params ''coordinate'' = None" and sy: "scrollY_of params = Inr scrollY"
      and ol: "observer_leaves onActionExecuted (Str ''scroll'') params"
  proof -
    let ?args = "[(''x'', Num 0), (''y'', Num 0), (''scrollX'', Num 0), (''scrollY'', scrollY)]"
    have c0: "own_prop params ''coordinate'' = Undefined"
      using co by (simp add: own_prop_def)
    have sw': "switch_action E (Str ''scroll'') params h
        = invoke_text E ''computer_mouse_scroll'' ?args params h"
      by (simp add: sw sy c0 js_opt_index_def js_or_def)
    have none: "executeComputerAction E (Str ''scroll'') params None h =
      (case invoke E (world h) ''computer_mouse_scroll'' ?args of
         (Inl t, w) \<Rightarrow> (catch_clause (Str ''scroll'') params t,
                        \<lparr>world = w, trace = trace h @ [Invoke ''computer_mouse_scroll'' ?args]\<rparr>)
       | (Inr r, w) \<Rightarrow> (Inr (text_result params r),
                        \<lparr>world = w, trace = trace h @ [Invoke ''computer_mouse_scroll'' ?args]\<rparr>))"
      by (simp add: exec_without_observer sw' invoke_text_cases split: prod.splits sum.splits)
    have eff: "invocations (new_effects h (snd (executeComputerAction E (Str ''scroll'') params None h)))
        = [(''computer_mouse_scroll'', ?args)]"
      by (simp add: none new_effects_def split: prod.splits sum.splits)
    have res: "fst (executeComputerAction E (Str ''scroll'') params None h)
        = (case fst (invoke E (world h) ''computer_mouse_scroll'' ?args) of
                    Inl t \<Rightarrow>
                      (case error_message t of
                         Inl e \<Rightarrow> Inl e
                       | Inr msg \<Rightarrow>
                           Inr \<lparr>tool_use_id = own_prop params ''tool_use_id'',
                                content = TextContent (''Error: '' @ msg), is_error = True\<rparr>)
                  | Inr r \<Rightarrow>
                      Inr \<lparr>tool_use_id = own_prop params ''tool_use_id'',
                           content = TextContent r, is_error = False\<rparr>)"
      by (simp add: none catch_clause_def error_result_def text_result_def
            split: prod.splits sum.splits)
    from exec_observer_leaves [OF ol, of E h] eff res show ?thesis
      by (intro exI [of _ ?args]) (simp add: own_prop_def)
  qed
  from all omitted show ?thesis by blast
qed

theorem scroll_without_coordinate_witness:
  "map_of (scroll_params ''up'') ''coordinate'' = None
   \<and> scrollY_of (scroll_params ''up'') = Inr (Num (- 5))
   \<and> observer_leaves None (Str ''scroll'') (scroll_params ''up'')
   \<and> invocations (new_effects idle
        (snd (executeComputerAction (obliging_env Null) (Str ''scroll'') (scroll_params ''up'') None idle)))
      = [(''computer_mouse_scroll'',
          [(''x'', Num 0), (''y'', Num 0), (''scrollX'', Num 0), (''scrollY'', Num (- 5))])]
   \<and> fst (executeComputerAction (obliging_env Null) (Str ''scroll'') (scroll_params ''up'') None idle)
      = Inr \<lparr>tool_use_id = Str ''toolu_2'', content = TextContent ''done'', is_error = False\<rparr>"
proof -
  have ev: "executeComputerAction (obliging_env Null) (Str ''scroll'') (scroll_params ''up'') None idle
      = (Inr \<lparr>tool_use_id = Str ''toolu_2'', content = TextContent ''done'', is_error = False\<rparr>,
         \<lparr>world = (), trace = [Invoke ''computer_mouse_scroll''
             [(''x'', Num 0), (''y'', Num 0), (''scrollX'', Num 0), (''scrollY'', Num (- 5))]]\<rparr>)"
    by (simp add: exec_without_observer switch_action_def scroll_params_def own_prop_def
          js_opt_index_def js_or_def js_neg_def scrollY_of_def
          invoke_text_cases obliging_env_def idle_def text_result_def)
  have ti: "trace idle = []" by (simp add: idle_def)
  have mo: "map_of (scroll_params ''up'') ''coordinate'' = None" by (simp add: scroll_params_def)
  have sy: "scrollY_of (scroll_params ''up'') = Inr (Num (- 5))"
    by (simp add: scrollY_of_def scroll_params_def own_prop_def js_neg_def)
  have ol: "observer_leaves None (Str ''scroll'') (scroll_params ''up'')"
    by (simp add: observer_leaves_def)
  show ?thesis
    using scroll_without_coordinate
            [of "scroll_params ''up''" "Num (- 5)" None idle "obliging_env Null"]
    by (simp add: ev mo sy ol new_effects_def ti)
qed

section \<open>Properties of the loop\<close>

text \<open>
  C1. In every session the counters of the iteration events are 1, 2, 3, ... in steps of
  one, and none exceeds \<^verbatim>\<open>maxIterations\<close>. When every reply of the endpoint is one the loop
  can read and announce, with at least one tool use and never \<^verbatim>\<open>end_turn\<close>, and every
  failure of the Action Executor and of the observer has a message, the session ends as
  BudgetExceeded after iteration \<^verbatim>\<open>maxIterations\<close>: the counters are exactly 1 to
  \<^verbatim>\<open>maxIterations\<close>, the endpoint was called that many times, and the last event is the
  error \<^verbatim>\<open>Reached maximum iterations (<maxIterations>)\<close>. The budget is one that
  JavaScript counts exactly, at most \<open>2\<^sup>5\<^sup>3 - 1\<close>.
\<close>

theorem iteration_counters_count_up_to_budget:
  "iteration_counters (events (snd (computerUseAgentLoop E userMessage config apiKey systemPrompt
       onActionExecuted w)))
     = [1..int (length (iteration_counters (events (snd (computerUseAgentLoop E userMessage config
          apiKey systemPrompt onActionExecuted w)))))]
   \<and> list_all (\<lambda>n. n \<le> maxIterations config)
       (iteration_counters (events (snd (computerUseAgentLoop E userMessage config apiKey systemPrompt
          onActionExecuted w))))
   \<and> ((\<forall>w req. \<exists>response w' data. tauriFetch E w req = (Inr response, w') \<and> ok response
          \<and> json_body response = Inr data \<and> runnable_reply data \<and> reply_tool_uses data \<noteq> []
          \<and> \<not> end_turn data)
       \<and> executor_tame E \<and> observer_tame onActionExecuted
       \<and> maxIterations config \<le> 9007199254740991 \<longrightarrow>
        fst (computerUseAgentLoop E userMessage config apiKey systemPrompt onActionExecuted w)
          = BudgetExceeded
        \<and> iteration_counters (events (snd (computerUseAgentLoop E userMessage config apiKey
             systemPrompt onActionExecuted w)))
          = [1..maxIterations config]
        \<and> last (events (snd (computerUseAgentLoop E userMessage config apiKey systemPrompt
             onActionExecuted w)))
          = \<lparr>ev_type = ErrorEvent,
             ev_content = Str (''Reached maximum iterations ('' @ show_int (maxIterations config)
                               @ '')''),
             ev_data = NoData\<rparr>
        \<and> length (fetches (trace (host (snd (computerUseAgentLoop E userMessage config apiKey
             systemPrompt onActionExecuted w)))))
          = nat (maxIterations config))"
proof -
  let ?wl = "while_loop E config apiKey systemPrompt onActionExecuted (the_tools config) 0
               (seed userMessage w)"
  let ?cs = "iteration_counters (events (snd (finish config ?wl)))"
  let ?e = "\<lparr>ev_type = ErrorEvent,
             ev_content = Str (''Reached maximum iterations ('' @ show_int (maxIterations config)
                               @ '')''),
             ev_data = NoData\<rparr>"
  from while_loop_counters [of 0 config E apiKey systemPrompt onActionExecuted "the_tools config"
         "seed userMessage w"]
  obtain k where k: "0 \<le> k" "k \<le> maxIterations config \<or> k = 0"
    and cs: "?cs = [1..k]"
    by (auto simp: finish_counters seed_def)
  have len: "int (length ?cs) = k" using k(1) by (simp add: cs)
  have bound: "list_all (\<lambda>n. n \<le> maxIterations config) ?cs"
    using k by (auto simp: cs list_all_iff)
  have always: "fst (finish config ?wl) = BudgetExceeded \<and> ?cs = [1..maxIterations config]
      \<and> last (events (snd (finish config ?wl))) = ?e
      \<and> length (fetches (trace (host (snd (finish config ?wl))))) = nat (maxIterations config)"
    if H: "\<forall>w req. \<exists>response w' data. tauriFetch E w req = (Inr response, w') \<and> ok response
          \<and> json_body response = Inr data \<and> runnable_reply data \<and> reply_tool_uses data \<noteq> []
          \<and> \<not> end_turn data"
      and et: "executor_tame E" and ot: "observer_tame onActionExecuted"
  proof -
    from while_loop_always_tools [of E onActionExecuted config apiKey systemPrompt
           "the_tools config" 0 "seed userMessage w", OF _ et ot] H
    have a: "fst ?wl = Inr None"
      and b: "iteration_counters (events (snd ?wl)) = [1..maxIterations config]"
      and c: "length (fetches (trace (host (snd ?wl)))) = nat (maxIterations config)"
      by (simp_all add: seed_def)
    obtain s' where s': "?wl = (Inr None, s')" using a by (cases ?wl) simp
    have fin: "finish config (Inr None, s') = (BudgetExceeded, yield ?e s')"
      by (simp add: finish_def max_iterations_event_def)
    show ?thesis
      using b c
      by (simp add: s' fin last_events_yield)
         (simp add: yield_def iteration_counters_append)
  qed
  show ?thesis
    unfolding computerUseAgentLoop_def
    using len cs bound always by (simp only: len) blast
qed

theorem iteration_counters_count_up_to_budget_witness:
  "(\<forall>w req. \<exists>response w' data.
      tauriFetch (obliging_env click_reply) w req = (Inr response, w') \<and> ok response
      \<and> json_body response = Inr data \<and> runnable_reply data \<and> reply_tool_uses data \<noteq> []
      \<and> \<not> end_turn data)
   \<and> executor_tame (obliging_env click_reply) \<and> observer_tame None
   \<and> maxIterations (budget 3) \<le> 9007199254740991
   \<and> fst (computerUseAgentLoop (obliging_env click_reply) ''click the button'' (budget 3) ''key''
        None None ()) = BudgetExceeded
   \<and> iteration_counters (events (snd (computerUseAgentLoop (obliging_env click_reply)
        ''click the button'' (budget 3) ''key'' None None ()))) = [1, 2, 3]
   \<and> last (events (snd (computerUseAgentLoop (obliging_env click_reply)
        ''click the button'' (budget 3) ''key'' None None ())))
      = \<lparr>ev_type = ErrorEvent, ev_content = Str ''Reached maximum iterations (3)'',
         ev_data = NoData\<rparr>
   \<and> length (fetches (trace (host (snd (computerUseAgentLoop (obliging_env click_reply)
        ''click the button'' (budget 3) ''key'' None None ()))))) = 3"
proof -
  have H: "\<forall>w req. \<exists>response w' data.
      tauriFetch (obliging_env click_reply) w req = (Inr response, w') \<and> ok response
      \<and> json_body response = Inr data \<and> runnable_reply data \<and> reply_tool_uses data \<noteq> []
      \<and> \<not> end_turn data"
    using click_reply_facts by (simp add: obliging_env_def replying_def)
  have u: "[1..maxIterations (budget 3)] = [1, 2, 3]"
    by (simp add: budget_def upto_rec1)
  have n: "nat (maxIterations (budget 3)) = 3" by (simp add: budget_def)
  have m: "show_int (maxIterations (budget 3)) = ''3''"
    by (simp add: budget_def show_int_def show_nat.simps)
  have le: "maxIterations (budget 3) \<le> 9007199254740991" by (simp add: budget_def)
  show ?thesis
    using iteration_counters_count_up_to_budget
            [of "obliging_env click_reply" "''click the button''" "budget 3" "''key''" None None "()"]
          H executor_tame_obliging [of click_reply] observer_tame_None le
    by (simp add: u n m)
qed



text \<open>
  C3. A round with a reply the loop can read and announce, in which every dispatch returns
  (every failure of the Action Executor and of the observer has a message), ends the session
  as Completed exactly when the reply has no tool-use block or its \<^verbatim>\<open>stop_reason\<close> is
  \<^verbatim>\<open>end_turn\<close>: the last event is then the \<^verbatim>\<open>complete\<close> event with the text
  \<^verbatim>\<open>Task completed successfully\<close>, and the session ends in the state the round leaves.
  Otherwise the round yields no \<^verbatim>\<open>complete\<close> event and control goes back to the head of
  the loop. With no tool-use block the round ends there, whatever the counter: only the
  assistant turn is appended and nothing is sent to the executor. With \<^verbatim>\<open>end_turn\<close> after
  tool uses, the results are appended first.
\<close>

theorem round_completes_iff_no_tools_or_end_turn:
  assumes "tauriFetch E (world (host s)) (request_of config apiKey systemPrompt tools (messages s))
             = (Inr response, w')"
    and "ok response" and "json_body response = Inr data" and "runnable_reply data"
    and "reply_tool_uses data \<noteq> [] \<longrightarrow> executor_tame E \<and> observer_tame onActionExecuted"
  shows "fst (loop_body E config apiKey systemPrompt onActionExecuted tools (iterations + 1) s)
           = (if reply_tool_uses data = [] \<or> end_turn data then Inr (Some Completed) else Inr None)
       \<and> (reply_tool_uses data = [] \<longrightarrow>
            (\<exists>blocks. reply_blocks data = Some blocks
               \<and> messages (snd (loop_body E config apiKey systemPrompt onActionExecuted tools (iterations + 1) s))
                   = messages s @ [\<lparr>role = Assistant, body = Reply (Arr blocks)\<rparr>])
            \<and> invocations (new_effects (host s)
                 (host (snd (loop_body E config apiKey systemPrompt onActionExecuted tools (iterations + 1) s)))) = []
            \<and> last (events (snd (loop_body E config apiKey systemPrompt onActionExecuted tools (iterations + 1) s)))
                = \<lparr>ev_type = CompleteEvent, ev_content = Str ''Task completed successfully'',
                   ev_data = NoData\<rparr>)
       \<and> (reply_tool_uses data \<noteq> [] \<and> end_turn data \<longrightarrow>
            (\<exists>toolResults. length toolResults = length (reply_tool_uses data)
               \<and> last (messages (snd (loop_body E config apiKey systemPrompt onActionExecuted tools (iterations + 1) s)))
                   = \<lparr>role = User, body = Results toolResults\<rparr>)
            \<and> last (events (snd (loop_body E config apiKey systemPrompt onActionExecuted tools (iterations + 1) s)))
                = \<lparr>ev_type = CompleteEvent, ev_content = Str ''Task completed successfully'',
                   ev_data = NoData\<rparr>)
       \<and> (reply_tool_uses data \<noteq> [] \<and> \<not> end_turn data \<longrightarrow>
            list_all (\<lambda>e. ev_type e \<noteq> CompleteEvent)
              (new_events s
                 (snd (loop_body E config apiKey systemPrompt onActionExecuted tools (iterations + 1) s))))
       \<and> (iterations < maxIterations config \<longrightarrow>
            (if reply_tool_uses data = [] \<or> end_turn data
             then finish config
                    (while_loop E config apiKey systemPrompt onActionExecuted tools iterations s)
                  = (Completed,
                     snd (loop_body E config apiKey systemPrompt onActionExecuted tools (iterations + 1) s))
             else while_loop E config apiKey systemPrompt onActionExecuted tools iterations s
                  = while_loop E config apiKey systemPrompt onActionExecuted tools (iterations + 1)
                      (snd (loop_body E config apiKey systemPrompt onActionExecuted tools (iterations + 1) s))))"
proof -
  from assms(4) have rd: "readable_reply data" by (simp add: runnable_reply_def)
  let ?lb = "loop_body E config apiKey systemPrompt onActionExecuted tools (iterations + 1) s"
  let ?s0 = "narrated blocks (after_fetch config apiKey systemPrompt tools (iterations + 1) w' s)"
  let ?done = "\<lparr>ev_type = CompleteEvent, ev_content = Str ''Task completed successfully'',
                 ev_data = NoData\<rparr>"
  have ce: "complete_event = ?done" by (simp add: complete_event_def)
  show ?thesis
  proof (cases "reply_tool_uses data = []")
    case True
    from rd obtain blocks where rb: "reply_blocks data = Some blocks"
      by (elim readable_reply_blocks)
    let ?s0 = "narrated blocks (after_fetch config apiKey systemPrompt tools (iterations + 1) w' s)"
    have lb: "?lb = (Inr (Some Completed), yield ?done ?s0)"
      using loop_body_round(1) [OF assms(1-3) rd rb True, of onActionExecuted "iterations + 1"]
      by (simp add: ce)
    have w: "iterations < maxIterations config \<Longrightarrow>
        while_loop E config apiKey systemPrompt onActionExecuted tools iterations s
          = (Inr (Some Completed), yield ?done ?s0)"
      by (simp add: while_loop_step lb)
    show ?thesis
      using True rb
      by (simp add: lb w finish_returned last_events_yield no_tools_no_invocations)
         (simp add: yield_def messages_narrated_after_fetch)
  next
    case False
    with assms(5) have et: "executor_tame E" and ot: "observer_tame onActionExecuted"
      by simp_all
    from runnable_round [OF assms(1-4) False et ot, of "iterations + 1"]
    obtain rs s3 evs where len: "length rs = length (reply_tool_uses data)"
      and e3: "events s3 = events s @ iteration_event (iterations + 1) config # evs"
      and ty: "list_all (\<lambda>e. ev_type e \<noteq> CompleteEvent) evs"
      and lb: "?lb = (if end_turn data
                  then (Inr (Some Completed),
                        yield complete_event (push \<lparr>role = User, body = Results rs\<rparr> s3))
                  else (Inr None, push \<lparr>role = User, body = Results rs\<rparr> s3))"
      by blast
    show ?thesis
    proof (cases "end_turn data")
      case True
      have lb': "?lb = (Inr (Some Completed),
                        yield ?done (push \<lparr>role = User, body = Results rs\<rparr> s3))"
        using True lb by (simp add: ce)
      have w: "iterations < maxIterations config \<Longrightarrow>
          while_loop E config apiKey systemPrompt onActionExecuted tools iterations s
            = (Inr (Some Completed),
               yield ?done (push \<lparr>role = User, body = Results rs\<rparr> s3))"
        by (simp add: while_loop_step lb')
      have "last (messages (yield ?done (push \<lparr>role = User, body = Results rs\<rparr> s3)))
              = \<lparr>role = User, body = Results rs\<rparr>"
        by (simp add: yield_def push_def)
      then show ?thesis
        using True False len
        by (simp add: lb' w finish_returned last_events_yield)
    next
      case nt: False
      have lb': "?lb = (Inr None, push \<lparr>role = User, body = Results rs\<rparr> s3)"
        using nt lb by simp
      have ne: "new_events s (push \<lparr>role = User, body = Results rs\<rparr> s3)
          = iteration_event (iterations + 1) config # evs"
        by (simp add: new_events_def push_def e3)
      have "list_all (\<lambda>e. ev_type e \<noteq> CompleteEvent)
              (new_events s (push \<lparr>role = User, body = Results rs\<rparr> s3))"
        using ty by (simp add: ne iteration_event_def)
      then show ?thesis
        using nt False by (simp add: lb' while_loop_step)
    qed
  qed
qed

theorem round_completes_iff_no_tools_or_end_turn_witness:
  "runnable_reply text_reply \<and> reply_tool_uses text_reply = []
   \<and> finish (budget 3)
        (while_loop (obliging_env text_reply) (budget 3) ''key'' None None (the_tools (budget 3)) 0 fresh)
      = (Completed,
         snd (loop_body (obliging_env text_reply) (budget 3) ''key'' None None (the_tools (budget 3))
                (0 + 1) fresh))
   \<and> last (events (snd (loop_body (obliging_env text_reply) (budget 3) ''key'' None None
                (the_tools (budget 3)) (0 + 1) fresh)))
      = \<lparr>ev_type = CompleteEvent, ev_content = Str ''Task completed successfully'',
         ev_data = NoData\<rparr>
   \<and> runnable_reply end_turn_reply \<and> reply_tool_uses end_turn_reply \<noteq> []
   \<and> end_turn end_turn_reply
   \<and> executor_tame (obliging_env end_turn_reply) \<and> observer_tame None
   \<and> fst (finish (budget 3)
        (while_loop (obliging_env end_turn_reply) (budget 3) ''key'' None None (the_tools (budget 3)) 0 fresh))
      = Completed
   \<and> last (events (snd (loop_body (obliging_env end_turn_reply) (budget 3) ''key'' None None
                (the_tools (budget 3)) (0 + 1) fresh)))
      = \<lparr>ev_type = CompleteEvent, ev_content = Str ''Task completed successfully'',
         ev_data = NoData\<rparr>
   \<and> runnable_reply two_tools_reply \<and> reply_tool_uses two_tools_reply \<noteq> []
   \<and> \<not> end_turn two_tools_reply
   \<and> executor_tame (obliging_env two_tools_reply)
   \<and> fst (loop_body (obliging_env two_tools_reply) (budget 3) ''key'' None None (the_tools (budget 3))
        (0 + 1) fresh) = Inr None
   \<and> list_all (\<lambda>e. ev_type e \<noteq> CompleteEvent)
       (new_events fresh
          (snd (loop_body (obliging_env two_tools_reply) (budget 3) ''key'' None None
                  (the_tools (budget 3)) (0 + 1) fresh)))"
proof -
  have r1: "runnable_reply text_reply" and t1: "reply_tool_uses text_reply = []"
    by (simp_all add: runnable_reply_def readable_reply_def reply_tool_uses_def reply_blocks_def
          text_reply_def own_prop_def nullish_def is_tool_use_def)
  have r2: "runnable_reply end_turn_reply" and t2: "reply_tool_uses end_turn_reply \<noteq> []"
    and e2: "end_turn end_turn_reply"
    by (simp_all add: runnable_reply_def readable_reply_def reply_tool_uses_def reply_blocks_def
          end_turn_reply_def end_turn_def own_prop_def nullish_def is_tool_use_def has_input_def
          announceable_def stringable_def)
  have r3: "runnable_reply two_tools_reply" and t3: "reply_tool_uses two_tools_reply \<noteq> []"
    and e3: "\<not> end_turn two_tools_reply"
    by (simp_all add: runnable_reply_def readable_reply_def reply_tool_uses_def reply_blocks_def
          two_tools_reply_def end_turn_def own_prop_def nullish_def is_tool_use_def has_input_def
          announceable_def stringable_def)
  have b: "0 < maxIterations (budget 3)" by (simp add: budget_def)
  have f: "tauriFetch (obliging_env data) (world (host fresh))
             (request_of (budget 3) ''key'' None (the_tools (budget 3)) (messages fresh))
           = (Inr \<lparr>ok = True, status = 200, text_body = [], json_body = Inr data\<rparr>, ())" for data
    by (rule obliging_fetch)
  have tame: "reply_tool_uses data \<noteq> [] \<longrightarrow> executor_tame (obliging_env data) \<and> observer_tame None"
    for data
    by (simp add: executor_tame_obliging observer_tame_None)
  show ?thesis
    using round_completes_iff_no_tools_or_end_turn
            [where onActionExecuted = None and iterations = 0, OF f _ _ r1 tame]
          round_completes_iff_no_tools_or_end_turn
            [where onActionExecuted = None and iterations = 0, OF f _ _ r2 tame]
          round_completes_iff_no_tools_or_end_turn
            [where onActionExecuted = None and iterations = 0, OF f _ _ r3 tame]
    by (simp add: r1 t1 r2 t2 e2 r3 t3 e3 b executor_tame_obliging observer_tame_None)
qed

text \<open>
  C4, as the code has it. When the command a dispatch sends to the Action Executor fails
  with a failure whose message can be formed (an \<^verbatim>\<open>Error\<close>, or a value that \<^verbatim>\<open>String\<close>
  converts), the dispatch returns the result with \<^verbatim>\<open>is_error\<close> set and the content
  \<^verbatim>\<open>Error: \<close> followed by that message; nothing is raised. In a round whose reply the loop
  can read and announce, with at least one tool use, where every failure of the Action
  Executor and every exception of the observer has such a message, where the reply does not
  say \<^verbatim>\<open>end_turn\<close> and an iteration is left in the budget, the failure does not end the
  session: the round appends the results (all of them errors when the executor fails every
  call) and goes back to the head of the loop, so the endpoint is called next with the
  transcript that holds them.
\<close>

theorem executor_failure_is_not_terminal:
  "(invocations (new_effects h (snd (executeComputerAction E action params onActionExecuted h)))
        = [(cmd, args)]
      \<and> fst (invoke E (world h) cmd args) = Inl failure
      \<and> error_message failure = Inr msg
     \<longrightarrow> fst (executeComputerAction E action params onActionExecuted h)
           = Inr \<lparr>tool_use_id = own_prop (params_after onActionExecuted action params) ''tool_use_id'',
                  content = TextContent (''Error: '' @ msg), is_error = True\<rparr>)
   \<and> (tauriFetch E (world (host s)) (request_of config apiKey systemPrompt tools (messages s))
         = (Inr response, w')
      \<and> ok response \<and> json_body response = Inr data \<and> runnable_reply data
      \<and> reply_tool_uses data \<noteq> [] \<and> executor_tame E \<and> observer_tame onActionExecuted
      \<and> \<not> end_turn data \<and> iterations + 1 < maxIterations config
     \<longrightarrow> (\<exists>toolResults s' es.
            loop_body E config apiKey systemPrompt onActionExecuted tools (iterations + 1) s
              = (Inr None, s')
          \<and> last (messages s') = \<lparr>role = User, body = Results toolResults\<rparr>
          \<and> length toolResults = length (reply_tool_uses data)
          \<and> ((\<forall>w cmd args. \<exists>failure. fst (invoke E w cmd args) = Inl failure)
               \<longrightarrow> list_all is_error toolResults)
          \<and> trace (host (snd (while_loop E config apiKey systemPrompt onActionExecuted tools
                                 iterations s)))
              = trace (host s') @ Fetch (request_of config apiKey systemPrompt tools (messages s'))
                                  # es))"
proof (intro conjI impI)
  assume "invocations (new_effects h (snd (executeComputerAction E action params onActionExecuted h)))
        = [(cmd, args)] \<and> fst (invoke E (world h) cmd args) = Inl failure
        \<and> error_message failure = Inr msg"
  then show "fst (executeComputerAction E action params onActionExecuted h)
           = Inr \<lparr>tool_use_id = own_prop (params_after onActionExecuted action params) ''tool_use_id'',
                  content = TextContent (''Error: '' @ msg), is_error = True\<rparr>"
    using exec_failure [of h E action params onActionExecuted cmd args failure msg]
    by (simp add: error_result_def)
next
  assume a: "tauriFetch E (world (host s)) (request_of config apiKey systemPrompt tools (messages s))
         = (Inr response, w')
      \<and> ok response \<and> json_body response = Inr data \<and> runnable_reply data
      \<and> reply_tool_uses data \<noteq> [] \<and> executor_tame E \<and> observer_tame onActionExecuted
      \<and> \<not> end_turn data \<and> iterations + 1 < maxIterations config"
  then have f: "tauriFetch E (world (host s)) (request_of config apiKey systemPrompt tools (messages s))
         = (Inr response, w')"
    and ok: "ok response" and js: "json_body response = Inr data" and rn: "runnable_reply data"
    and ne: "reply_tool_uses data \<noteq> []" and et: "executor_tame E"
    and ot: "observer_tame onActionExecuted" and nt: "\<not> end_turn data"
    and lt: "iterations + 1 < maxIterations config"
    by simp_all
  from runnable_round [OF f ok js rn ne et ot, of "iterations + 1"]
  obtain rs s3 where
    len: "length rs = length (reply_tool_uses data)"
    and err: "(\<forall>w cmd args. \<exists>failure. fst (invoke E w cmd args) = Inl failure)
                \<longrightarrow> list_all is_error rs"
    and lb0: "loop_body E config apiKey systemPrompt onActionExecuted tools (iterations + 1) s
               = (if end_turn data
                  then (Inr (Some Completed),
                        yield complete_event (push \<lparr>role = User, body = Results rs\<rparr> s3))
                  else (Inr None, push \<lparr>role = User, body = Results rs\<rparr> s3))"
    by blast
  from lb0 nt
  have lb: "loop_body E config apiKey systemPrompt onActionExecuted tools (iterations + 1) s
               = (Inr None, push \<lparr>role = User, body = Results rs\<rparr> s3)"
    by simp
  let ?s' = "push \<lparr>role = User, body = Results rs\<rparr> s3"
  have w: "while_loop E config apiKey systemPrompt onActionExecuted tools iterations s
      = while_loop E config apiKey systemPrompt onActionExecuted tools (iterations + 1) ?s'"
    using lt by (simp add: while_loop_step lb)
  from while_loop_first_fetch [OF lt, of E apiKey systemPrompt onActionExecuted tools ?s']
  obtain es where
    "trace (host (snd (while_loop E config apiKey systemPrompt onActionExecuted tools
                         (iterations + 1) ?s')))
       = trace (host ?s') @ Fetch (request_of config apiKey systemPrompt tools (messages ?s')) # es"
    by blast
  then show "\<exists>toolResults s' es.
            loop_body E config apiKey systemPrompt onActionExecuted tools (iterations + 1) s
              = (Inr None, s')
          \<and> last (messages s') = \<lparr>role = User, body = Results toolResults\<rparr>
          \<and> length toolResults = length (reply_tool_uses data)
          \<and> ((\<forall>w cmd args. \<exists>failure. fst (invoke E w cmd args) = Inl failure)
               \<longrightarrow> list_all is_error toolResults)
          \<and> trace (host (snd (while_loop E config apiKey systemPrompt onActionExecuted tools
                                 iterations s)))
              = trace (host s') @ Fetch (request_of config apiKey systemPrompt tools (messages s'))
                                  # es"
    using lb len err w
    by (intro exI [of _ rs] exI [of _ ?s'] exI [of _ es]) (simp add: push_def)
qed

theorem executor_failure_is_not_terminal_witness:
  "invocations (new_effects idle
      (snd (executeComputerAction (refusing_env click_reply) (Str ''left_click'') click_params None idle)))
     = [(''computer_mouse_click'', [(''x'', Num 100), (''y'', Num 200), (''button'', Str ''left'')])]
   \<and> fst (invoke (refusing_env click_reply) (world idle) ''computer_mouse_click''
            [(''x'', Num 100), (''y'', Num 200), (''button'', Str ''left'')])
       = Inl (Rejected (Str ''click failed''))
   \<and> error_message (Rejected (Str ''click failed'')) = Inr ''click failed''
   \<and> fst (executeComputerAction (refusing_env click_reply) (Str ''left_click'') click_params None idle)
       = Inr \<lparr>tool_use_id = Str ''toolu_3'', content = TextContent ''Error: click failed'',
              is_error = True\<rparr>
   \<and> runnable_reply click_reply \<and> reply_tool_uses click_reply \<noteq> [] \<and> \<not> end_turn click_reply
   \<and> executor_tame (refusing_env click_reply) \<and> observer_tame None
   \<and> 0 + 1 < maxIterations (budget 3)
   \<and> fst (loop_body (refusing_env click_reply) (budget 3) ''key'' None None (the_tools (budget 3))
            (0 + 1) fresh) = Inr None"
proof -
  let ?args = "[(''x'', Num 100), (''y'', Num 200), (''button'', Str ''left'')]"
  have inv: "invocations (new_effects idle
      (snd (executeComputerAction (refusing_env click_reply) (Str ''left_click'') click_params None idle)))
     = [(''computer_mouse_click'', ?args)]"
    by (simp add: exec_without_observer switch_action_def click_params_def own_prop_def xy_def
          invoke_text_cases refusing_env_def idle_def new_effects_def)
  have fail: "fst (invoke (refusing_env click_reply) (world idle) ''computer_mouse_click'' ?args)
       = Inl (Rejected (Str ''click failed''))"
    by (simp add: refusing_env_def)
  have em: "error_message (Rejected (Str ''click failed'')) = Inr ''click failed''" by simp
  have tid: "own_prop (params_after None (Str ''left_click'') click_params) ''tool_use_id''
      = Str ''toolu_3''"
    by (simp add: click_params_def own_prop_def params_after_def)
  have b: "0 + 1 < maxIterations (budget 3)" by (simp add: budget_def)
  have f: "tauriFetch (refusing_env click_reply) (world (host fresh))
             (request_of (budget 3) ''key'' None (the_tools (budget 3)) (messages fresh))
           = (Inr \<lparr>ok = True, status = 200, text_body = [], json_body = Inr click_reply\<rparr>, ())"
    by (simp add: refusing_env_def replying_def)
  note inst = executor_failure_is_not_terminal
      [where h = idle and E = "refusing_env click_reply" and action = "Str ''left_click''"
         and params = click_params and onActionExecuted = None and cmd = "''computer_mouse_click''"
         and args = ?args and failure = "Rejected (Str ''click failed'')"
         and msg = "''click failed''" and s = fresh
         and config = "budget 3" and apiKey = "''key''" and systemPrompt = None
         and tools = "the_tools (budget 3)" and iterations = 0 and data = click_reply
         and response = "\<lparr>ok = True, status = 200, text_body = [], json_body = Inr click_reply\<rparr>"
         and w' = "()"]
  from inst inv fail em have res:
    "fst (executeComputerAction (refusing_env click_reply) (Str ''left_click'') click_params None idle)
       = Inr \<lparr>tool_use_id = Str ''toolu_3'', content = TextContent ''Error: click failed'',
              is_error = True\<rparr>"
    by (simp add: tid)
  from inst f b click_reply_facts executor_tame_refusing [of click_reply] observer_tame_None have
    "\<exists>s'. loop_body (refusing_env click_reply) (budget 3) ''key'' None None (the_tools (budget 3))
            (0 + 1) fresh = (Inr None, s')"
    by auto
  then have lb: "fst (loop_body (refusing_env click_reply) (budget 3) ''key'' None None
      (the_tools (budget 3)) (0 + 1) fresh) = Inr None"
    by auto
  show ?thesis
    using inv fail em res click_reply_facts b lb executor_tame_refusing [of click_reply]
      observer_tame_None
    by simp
qed

text \<open>
  C4 as stated (after a failing action the session goes on to the next endpoint call) fails
  where the budget ends with that round: with \<^verbatim>\<open>maxIterations\<close> 1 and a click that the
  executor refuses, the error result is appended, the endpoint has been called once, and
  the session ends as BudgetExceeded.
\<close>

theorem failing_action_in_last_iteration_ends_session:
  "fst (computerUseAgentLoop (refusing_env click_reply) ''click the button'' (budget 1) ''key''
         None None ()) = BudgetExceeded
   \<and> length (fetches (trace (host (snd (computerUseAgentLoop (refusing_env click_reply)
         ''click the button'' (budget 1) ''key'' None None ()))))) = 1
   \<and> last (messages (snd (computerUseAgentLoop (refusing_env click_reply) ''click the button''
         (budget 1) ''key'' None None ())))
      = \<lparr>role = User,
         body = Results [\<lparr>tool_use_id = Str ''toolu_3'',
                          content = TextContent ''Error: click failed'', is_error = True\<rparr>]\<rparr>"
  by code_simp

text \<open>
  C5. A response whose status is not a success ends the session at once as
  TransportError: the last event is an error whose text holds the status code and the body
  of the response, the transcript is unchanged, and the endpoint was called once in the
  round (the call is not retried).
\<close>

theorem failed_status_is_transport_error:
  assumes "iterations < maxIterations config"
    and "tauriFetch E (world (host s)) (request_of config apiKey systemPrompt tools (messages s))
           = (Inr response, w')"
    and "\<not> ok response"
  shows "finish config (while_loop E config apiKey systemPrompt onActionExecuted tools iterations s)
           = (TransportError,
              yield (api_error_event response)
                (after_fetch config apiKey systemPrompt tools (iterations + 1) w' s))
       \<and> ev_content (api_error_event response)
           = Str (''API Error: '' @ show_int (status response) @ '' - '' @ text_body response)
       \<and> messages (snd (finish config
            (while_loop E config apiKey systemPrompt onActionExecuted tools iterations s)))
           = messages s
       \<and> new_effects (host s) (host (snd (finish config
            (while_loop E config apiKey systemPrompt onActionExecuted tools iterations s))))
           = [Fetch (request_of config apiKey systemPrompt tools (messages s))]"
proof -
  have lb: "loop_body E config apiKey systemPrompt onActionExecuted tools (iterations + 1) s
      = (Inr (Some TransportError),
         yield (api_error_event response)
           (after_fetch config apiKey systemPrompt tools (iterations + 1) w' s))"
    using assms(2,3) by (simp add: loop_body_def Let_def call_fetch_def after_fetch_def yield_def)
  have w: "while_loop E config apiKey systemPrompt onActionExecuted tools iterations s
      = (Inr (Some TransportError),
         yield (api_error_event response)
           (after_fetch config apiKey systemPrompt tools (iterations + 1) w' s))"
    using assms(1) by (simp add: while_loop_step lb)
  show ?thesis
    by (simp add: w finish_returned)
       (simp add: api_error_event_def yield_def after_fetch_def new_effects_def)
qed

theorem failed_status_is_transport_error_witness:
  "0 < maxIterations (budget 3)
   \<and> fst (finish (budget 3)
        (while_loop overloaded_env (budget 3) ''key'' None None (the_tools (budget 3)) 0 fresh))
      = TransportError
   \<and> events (snd (finish (budget 3)
        (while_loop overloaded_env (budget 3) ''key'' None None (the_tools (budget 3)) 0 fresh)))
      = [\<lparr>ev_type = ActionEvent, ev_content = Str ''Iteration 1/3'', ev_data = IterationData 1\<rparr>,
         \<lparr>ev_type = ErrorEvent, ev_content = Str ''API Error: 529 - overloaded'', ev_data = NoData\<rparr>]
   \<and> messages (snd (finish (budget 3)
        (while_loop overloaded_env (budget 3) ''key'' None None (the_tools (budget 3)) 0 fresh)))
      = [\<lparr>role = User, body = Plain ''scroll up, then fly''\<rparr>]"
proof -
  have b: "0 < maxIterations (budget 3)" by (simp add: budget_def)
  have f: "tauriFetch overloaded_env (world (host fresh))
             (request_of (budget 3) ''key'' None (the_tools (budget 3)) (messages fresh))
           = (Inr \<lparr>ok = False, status = 529, text_body = ''overloaded'',
                   json_body = Inl ''Unexpected token''\<rparr>, ())"
    by (simp add: overloaded_env_def)
  have n3: "show_int 3 = ''3''" and n1: "show_int 1 = ''1''" and n529: "show_int 529 = ''529''"
    by (simp_all add: show_int_def show_nat.simps)
  show ?thesis
    using failed_status_is_transport_error [where onActionExecuted = None, OF b f]
    by (simp add: b yield_def after_fetch_def api_error_event_def iteration_event_def
          fresh_def seed_def budget_def n3 n1 n529)
qed




end
